theory Spec2Isabelle
  imports Complex_Main "HOL-Library.Multiset" "HOL-Library.Log_Nat"
begin

section \<open>Numbers and rectangles\<close>

text \<open>
  The values of the source's type \<^verbatim>\<open>number\<close> are modelled as rationals: every finite
  double is a rational, and sums, differences and comparisons are taken exactly. NaN and
  the infinities are outside the model. The rounding of double arithmetic is left out of
  the definitions of the first sections, whose results are therefore those of the source
  in exact arithmetic; it is written out for the horizontal arrangement in the section on
  binary64. The decimal constants of the source (\<^verbatim>\<open>1.2\<close>, \<^verbatim>\<open>0.2\<close>, \<^verbatim>\<open>0.5\<close>,
  \<^verbatim>\<open>0.05\<close>) are the fractions they denote.

  \<^verbatim>\<open>Math.round\<close> rounds to the nearest integer, a tie going up.
\<close>

definition Math_round :: "rat \<Rightarrow> int" where
  "Math_round v = \<lfloor>v + 1 / 2\<rfloor>"

text \<open>
  \<^verbatim>\<open>Math.max(...vs)\<close> and \<^verbatim>\<open>Math.min(...vs)\<close>, and the loops
  \<^verbatim>\<open>m = Infinity; for (f of frames) m = Math.min(m, f.x)\<close>. On an empty list the source
  yields an infinity, which is no rational: the two functions have no equation there, and
  every use below is on a list the source has checked to be non-empty.
\<close>

fun Math_max :: "rat list \<Rightarrow> rat" where
  "Math_max (v # vs) = foldl max v vs"

fun Math_min :: "rat list \<Rightarrow> rat" where
  "Math_min (v # vs) = foldl min v vs"

text \<open>The geometry of a \<^verbatim>\<open>PositionedNode\<close>.\<close>

record rect =
  x :: rat
  y :: rat
  width :: rat
  height :: rat

text \<open>
  \<^verbatim>\<open>Array.prototype.sort(cmp)\<close>: a stable sort. An element goes before the first
  element of the sorted rest that it does not compare greater than. For a comparator that
  is a consistent ordering every stable sort gives this result. For an inconsistent one,
  as the comparator of the first sort of \<^verbatim>\<open>detectSpacing\<close> can be, the language leaves
  the order to the engine and engines differ; the model then fixes insertion from the
  right, and what is proved below about such a sort is its result for this choice.
\<close>

fun insort_cmp :: "('a \<Rightarrow> 'a \<Rightarrow> rat) \<Rightarrow> 'a \<Rightarrow> 'a list \<Rightarrow> 'a list" where
  "insort_cmp cmp a [] = [a]"
| "insort_cmp cmp a (b # bs) =
     (if cmp a b \<le> 0 then a # b # bs else b # insort_cmp cmp a bs)"

definition array_sort :: "('a \<Rightarrow> 'a \<Rightarrow> rat) \<Rightarrow> 'a list \<Rightarrow> 'a list" where
  "array_sort cmp vs = foldr (insort_cmp cmp) vs []"

section \<open>detectSpacing\<close>

text \<open>The comparator of the first sort: by \<^verbatim>\<open>x\<close> within 10 units of \<^verbatim>\<open>y\<close>, else by \<^verbatim>\<open>y\<close>.\<close>

definition rowOrder :: "'a rect_scheme \<Rightarrow> 'a rect_scheme \<Rightarrow> rat" where
  "rowOrder a b = (if \<bar>y a - y b\<bar> < 10 then x a - x b else y a - y b)"

definition sortedFrames :: "'a rect_scheme list \<Rightarrow> 'a rect_scheme list" where
  "sortedFrames frames = array_sort rowOrder frames"

text \<open>
  The grouping loop, with its three variables \<^verbatim>\<open>rows\<close>, \<^verbatim>\<open>currentRow\<close> and
  \<^verbatim>\<open>currentRowY\<close>; the first equation is the push after the loop.
\<close>

fun groupLoop ::
  "'a rect_scheme list \<Rightarrow> 'a rect_scheme list list \<Rightarrow> 'a rect_scheme list \<Rightarrow> rat
     \<Rightarrow> 'a rect_scheme list list" where
  "groupLoop [] rows currentRow currentRowY =
     (if length currentRow > 0 then rows @ [currentRow] else rows)"
| "groupLoop (frame # rest) rows currentRow currentRowY =
     (if \<bar>y frame - currentRowY\<bar> < 10
      then groupLoop rest rows (currentRow @ [frame]) currentRowY
      else groupLoop rest (if length currentRow > 0 then rows @ [currentRow] else rows)
             [frame] (y frame))"

definition groupRows :: "'a rect_scheme list \<Rightarrow> 'a rect_scheme list list" where
  "groupRows ordered =
     groupLoop ordered [] [] (case ordered of [] \<Rightarrow> 0 | f # _ \<Rightarrow> y f)"

text \<open>\<^verbatim>\<open>row.sort((a, b) => a.x - b.x)\<close>, done in place on every row of two or more.\<close>

definition sortRow :: "'a rect_scheme list \<Rightarrow> 'a rect_scheme list" where
  "sortRow row = (if length row < 2 then row else array_sort (\<lambda>a b. x a - x b) row)"

text \<open>The gaps of adjacent pairs of one row, the negative ones dropped.\<close>

fun rowSpacings :: "'a rect_scheme list \<Rightarrow> rat list" where
  "rowSpacings (a # b # rest) =
     (let spacing = x b - (x a + width a)
      in (if spacing \<ge> 0 then [spacing] else []) @ rowSpacings (b # rest))"
| "rowSpacings _ = []"

definition horizontalSpacings :: "'a rect_scheme list list \<Rightarrow> rat list" where
  "horizontalSpacings rows =
     concat (map (\<lambda>row. if length row < 2 then [] else rowSpacings (sortRow row)) rows)"

fun verticalSpacings :: "'a rect_scheme list list \<Rightarrow> rat list" where
  "verticalSpacings (currentRow # nextRow # rest) =
     (let currentRowBottom = Math_max (map (\<lambda>f. y f + height f) currentRow);
          nextRowTop = Math_min (map y nextRow);
          spacing = nextRowTop - currentRowBottom
      in (if spacing \<ge> 0 then [spacing] else []) @ verticalSpacings (nextRow # rest))"
| "verticalSpacings _ = []"

definition allSpacings :: "'a rect_scheme list \<Rightarrow> rat list" where
  "allSpacings frames =
     (let rows = groupRows (sortedFrames frames)
      in horizontalSpacings rows @ verticalSpacings (map sortRow rows))"

text \<open>
  \<^verbatim>\<open>spacingGroups\<close>: an object whose keys are the rounded gaps. The keys are
  non-negative integers, and \<^verbatim>\<open>for (k in spacingGroups)\<close> visits integer keys in ascending
  numeric order, so the object is an association list kept sorted by key. (Keys of
  \<^verbatim>\<open>2^32 - 1\<close> and more are visited in insertion order instead; gaps of that size are
  outside the model.)
\<close>

fun pushSpacing :: "int \<Rightarrow> rat \<Rightarrow> (int \<times> rat list) list \<Rightarrow> (int \<times> rat list) list" where
  "pushSpacing rounded spacing [] = [(rounded, [spacing])]"
| "pushSpacing rounded spacing ((k, grp) # rest) =
     (if rounded = k then (k, grp @ [spacing]) # rest
      else if rounded < k then (rounded, [spacing]) # (k, grp) # rest
      else (k, grp) # pushSpacing rounded spacing rest)"

definition spacingGroups :: "rat list \<Rightarrow> (int \<times> rat list) list" where
  "spacingGroups spacings =
     foldl (\<lambda>groups spacing. pushSpacing (Math_round spacing) spacing groups) [] spacings"

text \<open>The loop for the most common group: the pair \<^verbatim>\<open>(maxCount, mostCommonSpacing)\<close>.\<close>

definition mostCommon :: "(int \<times> rat list) list \<Rightarrow> nat \<times> int option" where
  "mostCommon groups =
     foldl (\<lambda>(maxCount, mostCommonSpacing) (rounded, grp).
              if length grp > maxCount then (length grp, Some rounded)
              else (maxCount, mostCommonSpacing))
       (0, None) groups"

text \<open>
  The two loops for the best non-zero group: the pair
  \<^verbatim>\<open>(bestNonZeroCount, bestNonZeroSpacing)\<close>. The first is the one inside the 20\% branch
  (at least 2 members and 5\% of all gaps), the second the last resort (2 members).
\<close>

definition bestNonZeroShare :: "nat \<Rightarrow> (int \<times> rat list) list \<Rightarrow> nat \<times> int option" where
  "bestNonZeroShare len groups =
     foldl (\<lambda>(bestNonZeroCount, bestNonZeroSpacing) (rounded, grp).
              if rounded > 0 \<and> length grp > bestNonZeroCount \<and> length grp \<ge> 2
                 \<and> rat_of_nat (length grp) \<ge> rat_of_nat len * (5 / 100)
              then (length grp, Some rounded)
              else (bestNonZeroCount, bestNonZeroSpacing))
       (0, None) groups"

definition bestNonZero :: "(int \<times> rat list) list \<Rightarrow> nat \<times> int option" where
  "bestNonZero groups =
     foldl (\<lambda>(bestNonZeroCount, bestNonZeroSpacing) (rounded, grp).
              if rounded > 0 \<and> length grp \<ge> 2 \<and> length grp > bestNonZeroCount
              then (length grp, Some rounded)
              else (bestNonZeroCount, bestNonZeroSpacing))
       (0, None) groups"

text \<open>The part of \<^verbatim>\<open>detectSpacing\<close> after the uniformity check.\<close>

definition modeSpacing :: "rat list \<Rightarrow> rat option" where
  "modeSpacing spacings =
     (let groups = spacingGroups spacings;
          len = length spacings;
          (maxCount, mostCommonSpacing) = mostCommon groups
      in if mostCommonSpacing \<noteq> None \<and> rat_of_nat maxCount \<ge> rat_of_nat len * (2 / 10)
         then (if mostCommonSpacing = Some 0 \<and> rat_of_nat maxCount < rat_of_nat len * (5 / 10)
               then (case snd (bestNonZeroShare len groups) of
                       Some best \<Rightarrow> Some (rat_of_int best)
                     | None \<Rightarrow> map_option rat_of_int mostCommonSpacing)
               else map_option rat_of_int mostCommonSpacing)
         else if mostCommonSpacing = Some 0
                 \<or> (mostCommonSpacing \<noteq> None
                     \<and> rat_of_nat maxCount < rat_of_nat len * (2 / 10))
         then map_option rat_of_int (snd (bestNonZero groups))
         else None)"

definition detectSpacing :: "'a rect_scheme list \<Rightarrow> rat option" where
  "detectSpacing frames =
     (if length frames < 2 then None
      else case allSpacings frames of
             [] \<Rightarrow> None
           | firstSpacing # _ \<Rightarrow>
               (let spacings = allSpacings frames;
                    tolerance = 2;
                    isEven = (\<forall>s \<in> set spacings. \<bar>s - firstSpacing\<bar> \<le> tolerance)
                in if isEven \<and> firstSpacing \<ge> 0
                   then Some (rat_of_int (Math_round firstSpacing))
                   else modeSpacing spacings))"

section \<open>detectLayoutAndAlignment\<close>

datatype layout = Horizontal | Vertical | Maintain

datatype alignment = Top | Center | Bottom | Left | Right

definition detectLayoutAndAlignment :: "'a rect_scheme list \<Rightarrow> layout \<times> alignment" where
  "detectLayoutAndAlignment frames =
     (if length frames < 2 then (Horizontal, Top)
      else
        let minX = Math_min (map x frames);
            minY = Math_min (map y frames);
            maxX = Math_max (map (\<lambda>f. x f + width f) frames);
            maxY = Math_max (map (\<lambda>f. y f + height f) frames);
            boxWidth = maxX - minX;
            boxHeight = maxY - minY;
            tolerance = 2;
            isHorizontal = (boxWidth > boxHeight * (12 / 10));
            isVertical = (boxHeight > boxWidth * (12 / 10))
        in if isHorizontal then
             (let topYs = map y frames;
                  bottomYs = map (\<lambda>f. y f + height f) frames;
                  centerYs = map (\<lambda>f. y f + height f / 2) frames;
                  topAligned = (\<forall>v \<in> set topYs. \<bar>v - hd topYs\<bar> \<le> tolerance);
                  bottomAligned = (\<forall>v \<in> set bottomYs. \<bar>v - hd bottomYs\<bar> \<le> tolerance);
                  avgCenterY = foldl (+) 0 centerYs / rat_of_nat (length centerYs);
                  centerAligned = (\<forall>v \<in> set centerYs. \<bar>v - avgCenterY\<bar> \<le> tolerance)
              in if topAligned then (Horizontal, Top)
                 else if bottomAligned then (Horizontal, Bottom)
                 else if centerAligned then (Horizontal, Center)
                 else (Horizontal, Top))
           else if isVertical then
             (let leftXs = map x frames;
                  rightXs = map (\<lambda>f. x f + width f) frames;
                  centerXs = map (\<lambda>f. x f + width f / 2) frames;
                  leftAligned = (\<forall>v \<in> set leftXs. \<bar>v - hd leftXs\<bar> \<le> tolerance);
                  rightAligned = (\<forall>v \<in> set rightXs. \<bar>v - hd rightXs\<bar> \<le> tolerance);
                  avgCenterX = foldl (+) 0 centerXs / rat_of_nat (length centerXs);
                  centerAligned = (\<forall>v \<in> set centerXs. \<bar>v - avgCenterX\<bar> \<le> tolerance)
              in if leftAligned then (Vertical, Left)
                 else if rightAligned then (Vertical, Right)
                 else if centerAligned then (Vertical, Center)
                 else (Vertical, Left))
           else (Maintain, Top))"

section \<open>The document\<close>

text \<open>
  The host's document is a store of nodes, addressed by their identity. A node carries its
  geometry, its type, its parent and children, and the string kept under the plugin-data
  key \<^verbatim>\<open>autosection-settings\<close> (the empty string when nothing was stored). The flag
  \<open>hasGeometry\<close> says that \<^verbatim>\<open>x\<close>, \<^verbatim>\<open>y\<close>, \<^verbatim>\<open>width\<close> and \<^verbatim>\<open>height\<close> are numbers, which
  is what \<^verbatim>\<open>hasPositionAndSize\<close> tests. While a node is the child of a section its
  \<^verbatim>\<open>x\<close> and \<^verbatim>\<open>y\<close> are relative to the section, as the source's comments say.
\<close>

datatype nodeType = SECTION | PAGE | FRAME | GROUP | OTHER

record node = rect +
  ntype :: nodeType
  parent :: "nat option"
  children :: "nat list"
  pluginData :: string
  hasGeometry :: bool

type_synonym store = "nat \<Rightarrow> node"

record padding =
  padTop :: rat
  padRight :: rat
  padBottom :: rat
  padLeft :: rat

text \<open>
  The four settings that an \<^verbatim>\<open>ApplyMessage\<close> carries and that are stored on a section.
\<close>

record settings =
  padding :: padding
  spacing :: rat
  layout :: layout
  alignment :: alignment

text \<open>
  The plugin's state: the document, the selection of the current page, and the module
  variable \<^verbatim>\<open>originalSelectionToRestore\<close>.
\<close>

record figma =
  nodes :: store
  currentPage :: nat
  selection :: "nat list"
  originalSelectionToRestore :: "nat list option"

text \<open>
  The messages of \<^verbatim>\<open>figma.notify\<close> that end an operation early. The names are those of
  the specification's error kinds where it has one.
  \<^item> \<open>SelectExactlyOne\<close>: "Please select exactly one element";
  \<^item> \<open>NotASectionOrContainedError\<close>: "Selected element is not inside a Section";
  \<^item> \<open>NoElementsInSection\<close>: "No elements with position and size found ...";
  \<^item> \<open>NoStoredConfigurationError\<close>: "Refresh is only available for sections created or
    updated with AutoSection";
  \<^item> \<open>MalformedStoredConfigurationError\<close>: "Error reading stored settings. Please update
    the section first.";
  \<^item> \<open>SelectASection\<close>: "Please select a Section to update";
  \<^item> \<open>SectionHasNoParent\<close>: "Section has no parent";
  \<^item> \<open>EmptySelectionError\<close>: "No elements with position and size selected".
\<close>

datatype error =
    SelectExactlyOne
  | NotASectionOrContainedError
  | NoElementsInSection
  | NoStoredConfigurationError
  | MalformedStoredConfigurationError
  | SelectASection
  | SectionHasNoParent
  | EmptySelectionError

definition hasPositionAndSize :: "store \<Rightarrow> nat \<Rightarrow> bool" where
  "hasPositionAndSize ns n = hasGeometry (ns n)"

text \<open>
  \<^verbatim>\<open>p.appendChild(c)\<close>: the child leaves the children of its old parent and becomes the
  last child of \<open>p\<close>. Its \<^verbatim>\<open>x\<close> and \<^verbatim>\<open>y\<close> keep their values, which is what the source
  relies on when it writes the relative position before appending.
\<close>

definition appendChild :: "nat \<Rightarrow> nat \<Rightarrow> store \<Rightarrow> store" where
  "appendChild p c ns =
     (let ns1 = (case parent (ns c) of
                   None \<Rightarrow> ns
                 | Some q \<Rightarrow> ns(q := (ns q)\<lparr>children := removeAll c (children (ns q))\<rparr>));
          ns2 = ns1(p := (ns1 p)\<lparr>children := children (ns1 p) @ [c]\<rparr>)
      in ns2(c := (ns2 c)\<lparr>parent := Some p\<rparr>))"

text \<open>The two writes \<^verbatim>\<open>frame.x = vx; frame.y = vy\<close>.\<close>

definition setPosition :: "nat \<Rightarrow> rat \<Rightarrow> rat \<Rightarrow> store \<Rightarrow> store" where
  "setPosition frame vx vy ns = ns(frame := (ns frame)\<lparr>x := vx, y := vy\<rparr>)"

definition findFramesInSection :: "store \<Rightarrow> nat \<Rightarrow> nat list" where
  "findFramesInSection ns section = filter (hasPositionAndSize ns) (children (ns section))"

text \<open>
  \<^verbatim>\<open>findParentSection\<close> walks up the parent chain. In a store whose parent links form a
  cycle the loop does not end: the result is then \<open>None\<close>; \<open>Some None\<close> is the
  source's \<^verbatim>\<open>null\<close>.
\<close>

partial_function (option) findParentSection :: "store \<Rightarrow> nat \<Rightarrow> nat option option" where
  "findParentSection ns current =
     (if ntype (ns current) = SECTION then Some (Some current)
      else case parent (ns current) of
             None \<Rightarrow> Some None
           | Some p \<Rightarrow> if ntype (ns p) = PAGE then Some None else findParentSection ns p)"

section \<open>The arrangement engine\<close>

text \<open>
  The loops of \<^verbatim>\<open>arrangeFramesHorizontal\<close> and \<^verbatim>\<open>arrangeFramesVertical\<close> over the sorted
  nodes, with the cursor \<^verbatim>\<open>currentX\<close> (\<^verbatim>\<open>currentY\<close>). The writes of \<^verbatim>\<open>frame.x\<close> and
  \<^verbatim>\<open>frame.y\<close> are taken to succeed; the \<^verbatim>\<open>catch\<close> that logs a write the host refuses
  is outside the model.
\<close>

fun placeHorizontal :: "alignment \<Rightarrow> rat \<Rightarrow> rat \<Rightarrow> nat list \<Rightarrow> rat \<Rightarrow> store \<Rightarrow> store" where
  "placeHorizontal al baseY gap [] currentX ns = ns"
| "placeHorizontal al baseY gap (frame # rest) currentX ns =
     placeHorizontal al baseY gap rest (currentX + (width (ns frame) + gap))
       (ns(frame := (ns frame)\<lparr>
             x := currentX,
             y := (if al = Top then baseY
                   else if al = Center then baseY - height (ns frame) / 2
                   else baseY - height (ns frame))\<rparr>))"

definition arrangeFramesHorizontal ::
  "nat list \<Rightarrow> rat \<Rightarrow> rat \<Rightarrow> rat \<Rightarrow> alignment \<Rightarrow> store \<Rightarrow> store" where
  "arrangeFramesHorizontal frames gap startX startY al ns =
     (let ordered = array_sort (\<lambda>a b. x (ns a) - x (ns b)) frames;
          maxHeight = Math_max (map (\<lambda>f. height (ns f)) ordered);
          baseY = (if al = Top then startY
                   else if al = Center then startY + maxHeight / 2
                   else startY + maxHeight)
      in placeHorizontal al baseY gap ordered startX ns)"

fun placeVertical :: "alignment \<Rightarrow> rat \<Rightarrow> rat \<Rightarrow> nat list \<Rightarrow> rat \<Rightarrow> store \<Rightarrow> store" where
  "placeVertical al baseX gap [] currentY ns = ns"
| "placeVertical al baseX gap (frame # rest) currentY ns =
     placeVertical al baseX gap rest (currentY + (height (ns frame) + gap))
       (ns(frame := (ns frame)\<lparr>
             x := (if al = Left then baseX
                   else if al = Center then baseX - width (ns frame) / 2
                   else baseX - width (ns frame)),
             y := currentY\<rparr>))"

definition arrangeFramesVertical ::
  "nat list \<Rightarrow> rat \<Rightarrow> rat \<Rightarrow> rat \<Rightarrow> alignment \<Rightarrow> store \<Rightarrow> store" where
  "arrangeFramesVertical frames gap startX startY al ns =
     (let ordered = array_sort (\<lambda>a b. y (ns a) - y (ns b)) frames;
          maxWidth = Math_max (map (\<lambda>f. width (ns f)) ordered);
          baseX = (if al = Left then startX
                   else if al = Center then startX + maxWidth / 2
                   else startX + maxWidth)
      in placeVertical al baseX gap ordered startY ns)"

definition arrangeFramesMaintain :: "nat list \<Rightarrow> rat \<Rightarrow> store \<Rightarrow> store" where
  "arrangeFramesMaintain frames gap ns = ns"

section \<open>The horizontal arrangement in binary64\<close>

text \<open>
  The source's numbers are binary64 doubles, and every sum and difference it forms is
  rounded to the nearest double. The definitions above compute exactly; for the claim that
  the arranged gaps are exact, this section writes the rounding out.

  A finite double other than 0 is \<open>n * 2 ^ (e - 52)\<close> or the negative of it, with an
  integer \<open>n\<close>, \<open>2 ^ 52 \<le> n < 2 ^ 53\<close>. \<open>binade v\<close> is the exponent \<open>e\<close> that belongs to \<open>v\<close>,
  the integer part of the binary logarithm of \<open>\<bar>v\<bar>\<close>, found from the bit lengths of the
  numerator and the denominator. \<open>fl64 v\<close> is the double nearest to \<open>v\<close>, a tie going to
  the even \<open>n\<close> (IEEE 754 roundTiesToEven): the value of an arithmetic operation of the
  source whose exact result is \<open>v\<close>. The exponent is not bounded: the overflow to an
  infinity and the subnormal numbers are outside the model. \<open>roundoff v\<close> is the error of
  the rounding.
\<close>

definition binade :: "rat \<Rightarrow> int" where
  "binade v =
     (let (p, q) = quotient_of \<bar>v\<bar>;
          e = bitlen p - bitlen q
      in if 2 powi e \<le> \<bar>v\<bar> then e else e - 1)"

definition fl64 :: "rat \<Rightarrow> rat" where
  "fl64 v =
     (if v = 0 then 0
      else let ulp = 2 powi (binade v - 52);
               r = \<bar>v\<bar> / ulp;
               m = \<lfloor>r\<rfloor>;
               n = (if r - of_int m < 1 / 2 then m
                    else if r - of_int m > 1 / 2 then m + 1
                    else if even m then m else m + 1)
           in sgn v * of_int n * ulp)"

definition roundoff :: "rat \<Rightarrow> rat" where
  "roundoff v = fl64 v - v"

text \<open>
  \<^verbatim>\<open>arrangeFramesHorizontal\<close> once more, every operation rounded: the difference in the
  comparator of the sort, \<^verbatim>\<open>startY + maxHeight / 2\<close>, \<^verbatim>\<open>baseY - frame.height / 2\<close>, and
  the cursor, where \<^verbatim>\<open>currentX += frame.width + spacing\<close> is
  \<^verbatim>\<open>currentX = currentX + (frame.width + spacing)\<close> and rounds twice.
\<close>

fun placeHorizontal64 :: "alignment \<Rightarrow> rat \<Rightarrow> rat \<Rightarrow> nat list \<Rightarrow> rat \<Rightarrow> store \<Rightarrow> store" where
  "placeHorizontal64 al baseY gap [] currentX ns = ns"
| "placeHorizontal64 al baseY gap (frame # rest) currentX ns =
     placeHorizontal64 al baseY gap rest (fl64 (currentX + fl64 (width (ns frame) + gap)))
       (ns(frame := (ns frame)\<lparr>
             x := currentX,
             y := (if al = Top then baseY
                   else if al = Center then fl64 (baseY - fl64 (height (ns frame) / 2))
                   else fl64 (baseY - height (ns frame)))\<rparr>))"

definition arrangeFramesHorizontal64 ::
  "nat list \<Rightarrow> rat \<Rightarrow> rat \<Rightarrow> rat \<Rightarrow> alignment \<Rightarrow> store \<Rightarrow> store" where
  "arrangeFramesHorizontal64 frames gap startX startY al ns =
     (let ordered = array_sort (\<lambda>a b. fl64 (x (ns a) - x (ns b))) frames;
          maxHeight = Math_max (map (\<lambda>f. height (ns f)) ordered);
          baseY = (if al = Top then startY
                   else if al = Center then fl64 (startY + fl64 (maxHeight / 2))
                   else fl64 (startY + maxHeight))
      in placeHorizontal64 al baseY gap ordered startX ns)"

section \<open>createSection and updateSection\<close>

text \<open>
  The blocks that \<^verbatim>\<open>createSection\<close>, \<^verbatim>\<open>updateSection\<close> and
  \<^verbatim>\<open>updateSectionWithStoredSettings\<close> repeat word for word: the choice of the arrangement
  by \<^verbatim>\<open>msg.layout\<close>, the list \<^verbatim>\<open>frameRelativePositions\<close>, the two maxima that start at
  0, and the loop that writes the relative positions and appends each node to the section.
\<close>

definition arrangeFrames :: "settings \<Rightarrow> nat list \<Rightarrow> rat \<Rightarrow> rat \<Rightarrow> store \<Rightarrow> store" where
  "arrangeFrames msg frames minX minY ns =
     (if layout msg = Horizontal
      then arrangeFramesHorizontal frames (spacing msg) minX minY (alignment msg) ns
      else if layout msg = Vertical
      then arrangeFramesVertical frames (spacing msg) minX minY (alignment msg) ns
      else arrangeFramesMaintain frames (spacing msg) ns)"

definition frameRelativePositions ::
  "settings \<Rightarrow> rat \<Rightarrow> rat \<Rightarrow> nat list \<Rightarrow> store \<Rightarrow> (nat \<times> rat \<times> rat) list" where
  "frameRelativePositions msg newMinX newMinY frames ns =
     map (\<lambda>f. (f, (x (ns f) - newMinX) + padLeft (padding msg),
                   (y (ns f) - newMinY) + padTop (padding msg))) frames"

definition maxRelativeX :: "store \<Rightarrow> (nat \<times> rat \<times> rat) list \<Rightarrow> rat" where
  "maxRelativeX ns rels = foldl (\<lambda>m (f, rx, ry). max m (rx + width (ns f))) 0 rels"

definition maxRelativeY :: "store \<Rightarrow> (nat \<times> rat \<times> rat) list \<Rightarrow> rat" where
  "maxRelativeY ns rels = foldl (\<lambda>m (f, rx, ry). max m (ry + height (ns f))) 0 rels"

fun addFramesToSection :: "nat \<Rightarrow> (nat \<times> rat \<times> rat) list \<Rightarrow> store \<Rightarrow> store" where
  "addFramesToSection section [] ns = ns"
| "addFramesToSection section ((f, rx, ry) # rest) ns =
     addFramesToSection section rest (appendChild section f (setPosition f rx ry ns))"

text \<open>
  \<^verbatim>\<open>figma.createSection()\<close>: a new section node, the last child of the current page. The
  node is one the document did not have; its identity \<open>sec\<close> is a parameter.
\<close>

definition newSectionNode :: "nat \<Rightarrow> nat \<Rightarrow> store \<Rightarrow> store" where
  "newSectionNode sec page ns =
     (ns(page := (ns page)\<lparr>children := children (ns page) @ [sec]\<rparr>))
       (sec := \<lparr>x = 0, y = 0, width = 0, height = 0, ntype = SECTION, parent = Some page,
                children = [], pluginData = [], hasGeometry = True\<rparr>)"

text \<open>
  \<^verbatim>\<open>createSection(msg)\<close>. \<^verbatim>\<open>JSON.stringify\<close> is the parameter \<open>stringify\<close>.
\<close>

definition createSection ::
  "(settings \<Rightarrow> string) \<Rightarrow> nat \<Rightarrow> settings \<Rightarrow> figma \<Rightarrow> (error + unit) \<times> figma" where
  "createSection stringify sec msg st =
     (let ns = nodes st;
          frames = filter (hasPositionAndSize ns) (selection st)
      in if length frames = 0 then (Inl EmptySelectionError, st)
         else
           let minX = Math_min (map (\<lambda>f. x (ns f)) frames);
               minY = Math_min (map (\<lambda>f. y (ns f)) frames);
               ns1 = arrangeFrames msg frames minX minY ns;
               newMinX = Math_min (map (\<lambda>f. x (ns1 f)) frames);
               newMinY = Math_min (map (\<lambda>f. y (ns1 f)) frames);
               sectionX = newMinX - padLeft (padding msg);
               sectionY = newMinY - padTop (padding msg);
               rels = frameRelativePositions msg newMinX newMinY frames ns1;
               expectedWidth = maxRelativeX ns1 rels + padRight (padding msg);
               expectedHeight = maxRelativeY ns1 rels + padBottom (padding msg);
               ns2 = newSectionNode sec (currentPage st) ns1;
               ns3 = ns2(sec := (ns2 sec)\<lparr>x := sectionX, y := sectionY,
                                           width := expectedWidth, height := expectedHeight\<rparr>);
               ns4 = addFramesToSection sec rels ns3;
               ns5 = ns4(sec := (ns4 sec)\<lparr>pluginData := stringify msg\<rparr>)
           in (Inr (), st\<lparr>nodes := ns5, selection := [sec]\<rparr>))"

text \<open>
  The two loops at the start of \<^verbatim>\<open>updateSection\<close>: every member is appended to the
  section's parent, and then gets the position \<^verbatim>\<open>originalSection + relative\<close>.
\<close>

fun moveToParent :: "nat \<Rightarrow> nat list \<Rightarrow> store \<Rightarrow> store" where
  "moveToParent par [] ns = ns"
| "moveToParent par (frame # rest) ns = moveToParent par rest (appendChild par frame ns)"

fun toAbsolute :: "rat \<Rightarrow> rat \<Rightarrow> (nat \<times> rat \<times> rat) list \<Rightarrow> store \<Rightarrow> store" where
  "toAbsolute originalSectionX originalSectionY [] ns = ns"
| "toAbsolute originalSectionX originalSectionY ((frame, relativeX, relativeY) # rest) ns =
     toAbsolute originalSectionX originalSectionY rest
       (setPosition frame (originalSectionX + relativeX) (originalSectionY + relativeY) ns)"

text \<open>
  \<^verbatim>\<open>updateSection(msg)\<close>. The members first go to the section's parent and get the
  position \<^verbatim>\<open>originalSection + relative\<close>; from there on the code is that of
  \<^verbatim>\<open>createSection\<close>, on the section that exists.
\<close>

definition updateSection ::
  "(settings \<Rightarrow> string) \<Rightarrow> settings \<Rightarrow> figma \<Rightarrow> (error + unit) \<times> figma" where
  "updateSection stringify msg st =
     (let ns = nodes st
      in if length (selection st) \<noteq> 1 \<or> ntype (ns (hd (selection st))) \<noteq> SECTION
         then (Inl SelectASection, st)
         else
           let section = hd (selection st);
               frames = findFramesInSection ns section
           in if length frames = 0 then (Inl NoElementsInSection, st)
              else
                let originalSectionX = x (ns section);
                    originalSectionY = y (ns section);
                    initialFramePositions = map (\<lambda>f. (f, x (ns f), y (ns f))) frames
                in case parent (ns section) of
                     None \<Rightarrow> (Inl SectionHasNoParent, st)
                   | Some par \<Rightarrow>
                       let nsP = moveToParent par frames ns;
                           nsA = toAbsolute originalSectionX originalSectionY
                                   initialFramePositions nsP;
                           minX = Math_min (map (\<lambda>f. x (nsA f)) frames);
                           minY = Math_min (map (\<lambda>f. y (nsA f)) frames);
                           ns1 = arrangeFrames msg frames minX minY nsA;
                           newMinX = Math_min (map (\<lambda>f. x (ns1 f)) frames);
                           newMinY = Math_min (map (\<lambda>f. y (ns1 f)) frames);
                           sectionX = newMinX - padLeft (padding msg);
                           sectionY = newMinY - padTop (padding msg);
                           rels = frameRelativePositions msg newMinX newMinY frames ns1;
                           expectedWidth = maxRelativeX ns1 rels + padRight (padding msg);
                           expectedHeight = maxRelativeY ns1 rels + padBottom (padding msg);
                           ns3 = ns1(section := (ns1 section)\<lparr>
                                       x := sectionX, y := sectionY,
                                       width := expectedWidth, height := expectedHeight\<rparr>);
                           ns4 = addFramesToSection section rels ns3;
                           ns5 = ns4(section := (ns4 section)\<lparr>pluginData := stringify msg\<rparr>)
                       in (Inr (), st\<lparr>nodes := ns5, originalSelectionToRestore := None\<rparr>))"

section \<open>handleUpdateSection and handleRefreshSection\<close>

text \<open>The \<^verbatim>\<open>init\<close> message that \<^verbatim>\<open>handleUpdateSection\<close> posts to the user interface.\<close>

record initMessage =
  detectedSpacing :: "rat option"
  currentPadding :: padding
  detectedLayout :: layout
  detectedAlignment :: alignment

text \<open>
  The detection branch of \<^verbatim>\<open>handleUpdateSection\<close>: the members in absolute positions,
  \<^verbatim>\<open>detectSpacing\<close> and \<^verbatim>\<open>detectLayoutAndAlignment\<close> on them, and the padding between the
  section's edges and the bounds of the members, clamped at 0 and rounded.
\<close>

definition absoluteFrames :: "store \<Rightarrow> nat \<Rightarrow> nat list \<Rightarrow> rect list" where
  "absoluteFrames ns section frames =
     map (\<lambda>f. \<lparr>x = x (ns section) + x (ns f), y = y (ns section) + y (ns f),
                width = width (ns f), height = height (ns f)\<rparr>) frames"

definition detectedInit :: "store \<Rightarrow> nat \<Rightarrow> nat list \<Rightarrow> initMessage" where
  "detectedInit ns section frames =
     (let detected = detectSpacing (absoluteFrames ns section frames);
          layoutAndAlignment = detectLayoutAndAlignment (absoluteFrames ns section frames);
          minFrameX = Math_min (map (\<lambda>f. x (ns f)) frames);
          minFrameY = Math_min (map (\<lambda>f. y (ns f)) frames);
          maxFrameX = Math_max (map (\<lambda>f. x (ns f) + width (ns f)) frames);
          maxFrameY = Math_max (map (\<lambda>f. y (ns f) + height (ns f)) frames);
          top = max 0 minFrameY;
          right = max 0 (width (ns section) - maxFrameX);
          bottom = max 0 (height (ns section) - maxFrameY);
          left = max 0 minFrameX
      in \<lparr>detectedSpacing = detected,
          currentPadding = \<lparr>padTop = rat_of_int (Math_round top),
                             padRight = rat_of_int (Math_round right),
                             padBottom = rat_of_int (Math_round bottom),
                             padLeft = rat_of_int (Math_round left)\<rparr>,
          detectedLayout = fst layoutAndAlignment,
          detectedAlignment = snd layoutAndAlignment\<rparr>)"

text \<open>
  \<^verbatim>\<open>handleUpdateSection\<close>. \<^verbatim>\<open>JSON.parse\<close> is the parameter \<open>parse\<close>, \<open>None\<close> where
  it throws; a string that parses is taken to hold the four settings, as every string
  that the plugin stores does. The result is the posted \<^verbatim>\<open>init\<close> message or the notified error, with the
  state the handler leaves; the whole is \<open>None\<close> where \<^verbatim>\<open>findParentSection\<close> does not
  return.
\<close>

definition handleUpdateSection ::
  "(string \<Rightarrow> settings option) \<Rightarrow> figma \<Rightarrow> ((error + initMessage) \<times> figma) option" where
  "handleUpdateSection parse st =
     (if length (selection st) \<noteq> 1 then Some (Inl SelectExactlyOne, st)
      else
        let selectedNode = hd (selection st);
            st1 = st\<lparr>originalSelectionToRestore := Some [selectedNode]\<rparr>
        in Option.bind
             (if ntype (nodes st selectedNode) = SECTION then Some (Some selectedNode)
              else findParentSection (nodes st) selectedNode)
             (\<lambda>found. case found of
                None \<Rightarrow> Some (Inl NotASectionOrContainedError, st1)
              | Some section \<Rightarrow>
                  (let st2 = st1\<lparr>selection := [section]\<rparr>;
                       ns = nodes st;
                       frames = findFramesInSection ns section
                   in if length frames = 0 then Some (Inl NoElementsInSection, st2)
                      else
                        let storedSettingsData = pluginData (ns section)
                        in if storedSettingsData \<noteq> []
                           then (case parse storedSettingsData of
                                   Some storedSettings \<Rightarrow>
                                     Some (Inr \<lparr>detectedSpacing = Some (spacing storedSettings),
                                                currentPadding = padding storedSettings,
                                                detectedLayout = layout storedSettings,
                                                detectedAlignment = alignment storedSettings\<rparr>,
                                           st2)
                                 | None \<Rightarrow> Some (Inr (detectedInit ns section frames), st2))
                           else Some (Inr (detectedInit ns section frames), st2))))"

text \<open>\<^verbatim>\<open>handleRefreshSection\<close>, which ends in \<^verbatim>\<open>updateSection(msg)\<close>.\<close>

definition handleRefreshSection ::
  "(string \<Rightarrow> settings option) \<Rightarrow> (settings \<Rightarrow> string) \<Rightarrow> figma
     \<Rightarrow> ((error + unit) \<times> figma) option" where
  "handleRefreshSection parse stringify st =
     (if length (selection st) \<noteq> 1 then Some (Inl SelectExactlyOne, st)
      else
        let selectedNode = hd (selection st);
            st1 = st\<lparr>originalSelectionToRestore := Some [selectedNode]\<rparr>
        in Option.bind
             (if ntype (nodes st selectedNode) = SECTION then Some (Some selectedNode)
              else findParentSection (nodes st) selectedNode)
             (\<lambda>found. case found of
                None \<Rightarrow> Some (Inl NotASectionOrContainedError, st1)
              | Some section \<Rightarrow>
                  (let st2 = st1\<lparr>selection := [section]\<rparr>;
                       ns = nodes st;
                       storedSettingsData = pluginData (ns section)
                   in if storedSettingsData = [] then Some (Inl NoStoredConfigurationError, st2)
                      else case parse storedSettingsData of
                             None \<Rightarrow> Some (Inl MalformedStoredConfigurationError, st2)
                           | Some storedSettings \<Rightarrow>
                               (let frames = findFramesInSection ns section
                                in if length frames = 0 then Some (Inl NoElementsInSection, st2)
                                   else Some (updateSection stringify storedSettings st2)))))"

section \<open>Example inputs\<close>

text \<open>Three squares of side 100 in one row, 10 units apart.\<close>

definition threeInARow :: "rect list" where
  "threeInARow =
     [\<lparr>x = 0, y = 0, width = 100, height = 100\<rparr>,
      \<lparr>x = 110, y = 0, width = 100, height = 100\<rparr>,
      \<lparr>x = 220, y = 0, width = 100, height = 100\<rparr>]"

text \<open>Three rectangles of different heights in one row, their bottoms on one line.\<close>

definition bottomAligned3 :: "rect list" where
  "bottomAligned3 =
     [\<lparr>x = 0, y = 60, width = 100, height = 40\<rparr>,
      \<lparr>x = 110, y = 0, width = 100, height = 100\<rparr>,
      \<lparr>x = 220, y = 50, width = 100, height = 50\<rparr>]"

text \<open>
  Squares of side 10 in one row. In the first row the gaps are 0, 0, 0, 5, 5; in the second
  0, 0, 5, 5, 9; in the third 0, 0, 5, 5.
\<close>

definition zeroHeavy :: "rect list" where
  "zeroHeavy = map (\<lambda>vx. \<lparr>x = vx, y = 0, width = 10, height = 10\<rparr>) [0, 10, 20, 30, 45, 60]"

definition zeroLight :: "rect list" where
  "zeroLight = map (\<lambda>vx. \<lparr>x = vx, y = 0, width = 10, height = 10\<rparr>) [0, 10, 20, 35, 50, 69]"

definition zeroHalf :: "rect list" where
  "zeroHalf = map (\<lambda>vx. \<lparr>x = vx, y = 0, width = 10, height = 10\<rparr>) [0, 10, 20, 35, 50]"

text \<open>The test of the loop inside the 20\% branch, on one group.\<close>

definition qualifies :: "nat \<Rightarrow> int \<times> rat list \<Rightarrow> bool" where
  "qualifies len e =
     (fst e > 0 \<and> length (snd e) \<ge> 2 \<and> rat_of_nat (length (snd e)) \<ge> rat_of_nat len * (5 / 100))"

text \<open>
  The row clustering as the specification words it, for comparison with the source's: the
  rectangles sorted by \<open>(y, x)\<close>, and a rectangle joining the current row when its
  \<^verbatim>\<open>y\<close> is within 10 units of the row's reference, 10 included.
\<close>

definition claimedOrder :: "'a rect_scheme \<Rightarrow> 'a rect_scheme \<Rightarrow> rat" where
  "claimedOrder a b = (if y a = y b then x a - x b else y a - y b)"

fun claimedLoop ::
  "'a rect_scheme list \<Rightarrow> 'a rect_scheme list list \<Rightarrow> 'a rect_scheme list \<Rightarrow> rat
     \<Rightarrow> 'a rect_scheme list list" where
  "claimedLoop [] rows currentRow currentRowY =
     (if length currentRow > 0 then rows @ [currentRow] else rows)"
| "claimedLoop (frame # rest) rows currentRow currentRowY =
     (if \<bar>y frame - currentRowY\<bar> \<le> 10
      then claimedLoop rest rows (currentRow @ [frame]) currentRowY
      else claimedLoop rest (if length currentRow > 0 then rows @ [currentRow] else rows)
             [frame] (y frame))"

definition claimedRows :: "'a rect_scheme list \<Rightarrow> 'a rect_scheme list list" where
  "claimedRows frames =
     (let ordered = array_sort claimedOrder frames
      in claimedLoop ordered [] [] (case ordered of [] \<Rightarrow> 0 | f # _ \<Rightarrow> y f))"

text \<open>
  Two rectangles whose \<^verbatim>\<open>y\<close> differ by exactly 10, and two whose \<^verbatim>\<open>y\<close> differ by 5
  with the lower one further left.
\<close>

definition tenApart :: "rect list" where
  "tenApart = [\<lparr>x = 0, y = 0, width = 10, height = 5\<rparr>, \<lparr>x = 20, y = 10, width = 10, height = 5\<rparr>]"

definition fiveApart :: "rect list" where
  "fiveApart = [\<lparr>x = 100, y = 0, width = 10, height = 5\<rparr>, \<lparr>x = 0, y = 5, width = 10, height = 5\<rparr>]"

text \<open>
  What the grouping loop establishes: no row is empty, every member of a row has its
  \<^verbatim>\<open>y\<close> less than 10 from that of the row's first member, and the first member of
  each later row does not pass that test against the row before it.
\<close>

definition rowsWellFormed :: "'a rect_scheme list list \<Rightarrow> bool" where
  "rowsWellFormed rows =
     ([] \<notin> set rows
      \<and> (\<forall>row \<in> set rows. \<forall>f \<in> set row. \<bar>y f - y (hd row)\<bar> < 10)
      \<and> successively (\<lambda>row nextRow. \<not> \<bar>y (hd nextRow) - y (hd row)\<bar> < 10) rows)"

text \<open>
  \<open>ancestorChain ns n ps s\<close>: walking up from \<open>n\<close>, the parents met are those of
  \<open>ps\<close>, in this order, and then \<open>s\<close>.
\<close>

fun ancestorChain :: "store \<Rightarrow> nat \<Rightarrow> nat list \<Rightarrow> nat \<Rightarrow> bool" where
  "ancestorChain ns n [] s \<longleftrightarrow> parent (ns n) = Some s"
| "ancestorChain ns n (p # ps) s \<longleftrightarrow> parent (ns n) = Some p \<and> ancestorChain ns p ps s"

text \<open>
  A page (0) holding a section (1) that holds a section (2) with two frames (3 and 4), the
  second of which holds a frame (5). The frame 5 is selected, and \<open>d\<close> is the string
  stored on the inner section.
\<close>

definition frameNode :: "rat \<Rightarrow> rat \<Rightarrow> rat \<Rightarrow> rat \<Rightarrow> nat \<Rightarrow> node" where
  "frameNode vx vy w h p =
     \<lparr>x = vx, y = vy, width = w, height = h, ntype = FRAME, parent = Some p,
      children = [], pluginData = [], hasGeometry = True\<rparr>"

definition sectionNode :: "rat \<Rightarrow> rat \<Rightarrow> rat \<Rightarrow> rat \<Rightarrow> nat \<Rightarrow> nat list \<Rightarrow> string \<Rightarrow> node" where
  "sectionNode vx vy w h p cs d =
     \<lparr>x = vx, y = vy, width = w, height = h, ntype = SECTION, parent = Some p,
      children = cs, pluginData = d, hasGeometry = True\<rparr>"

definition pageNode :: "nat list \<Rightarrow> node" where
  "pageNode cs =
     \<lparr>x = 0, y = 0, width = 0, height = 0, ntype = PAGE, parent = None,
      children = cs, pluginData = [], hasGeometry = False\<rparr>"

definition nestedDoc :: "string \<Rightarrow> figma" where
  "nestedDoc d =
     \<lparr>nodes = (\<lambda>_. pageNode [])
        (0 := pageNode [1],
         1 := sectionNode 0 0 500 500 0 [2] ''outer'',
         2 := sectionNode 50 50 300 200 1 [3, 4] d,
         3 := frameNode 10 10 100 100 2,
         4 := (frameNode 120 10 100 100 2)\<lparr>children := [5]\<rparr>,
         5 := frameNode 5 5 20 20 4),
      currentPage = 0, selection = [5], originalSelectionToRestore = None\<rparr>"

text \<open>Three frames on a page, listed in an order that is not their order by \<^verbatim>\<open>x\<close>.\<close>

definition shuffledRow :: store where
  "shuffledRow =
     (\<lambda>_. pageNode [])
       (0 := pageNode [1, 2, 3],
        1 := frameNode 220 7 100 60 0,
        2 := frameNode 0 0 80 100 0,
        3 := frameNode 110 30 50 40 0)"

text \<open>
  Two frames of width 0.2 on a page, the first at \<^verbatim>\<open>x = 0.1\<close>: the fractions are the
  doubles that these decimals denote.
\<close>

definition tenthsRow :: store where
  "tenthsRow =
     (\<lambda>_. pageNode [])
       (0 := pageNode [1, 2],
        1 := frameNode (3602879701896397 / 36028797018963968) 0
               (3602879701896397 / 18014398509481984) 10 0,
        2 := frameNode 1 0 (3602879701896397 / 18014398509481984) 10 0)"

text \<open>
  The geometry of a node as a tuple, and two stores that give the same geometry to every
  node of a list.
\<close>

definition geometry :: "'a rect_scheme \<Rightarrow> rat \<times> rat \<times> rat \<times> rat" where
  "geometry r = (x r, y r, width r, height r)"

definition sameGeometry :: "nat list \<Rightarrow> store \<Rightarrow> store \<Rightarrow> bool" where
  "sameGeometry fs a b = (\<forall>f \<in> set fs. geometry (a f) = geometry (b f))"

text \<open>
  For the proofs about \<^verbatim>\<open>createSection\<close> and \<^verbatim>\<open>updateSection\<close>: the arrangement started
  at the upper left corner of the bounding box, as both functions call it, and the code
  that both run after the arrangement, where \<open>ns1\<close> is the store the values are read
  from and \<open>base\<close> the store that is written.
\<close>

definition arranged :: "settings \<Rightarrow> nat list \<Rightarrow> store \<Rightarrow> store" where
  "arranged msg frames ns =
     arrangeFrames msg frames (Math_min (map (\<lambda>f. x (ns f)) frames))
       (Math_min (map (\<lambda>f. y (ns f)) frames)) ns"

definition fitSection ::
  "(settings \<Rightarrow> string) \<Rightarrow> nat \<Rightarrow> settings \<Rightarrow> nat list \<Rightarrow> store \<Rightarrow> store \<Rightarrow> store" where
  "fitSection stringify section msg frames ns1 base =
     (let newMinX = Math_min (map (\<lambda>f. x (ns1 f)) frames);
          newMinY = Math_min (map (\<lambda>f. y (ns1 f)) frames);
          sectionX = newMinX - padLeft (padding msg);
          sectionY = newMinY - padTop (padding msg);
          rels = frameRelativePositions msg newMinX newMinY frames ns1;
          expectedWidth = maxRelativeX ns1 rels + padRight (padding msg);
          expectedHeight = maxRelativeY ns1 rels + padBottom (padding msg);
          ns3 = base(section := (base section)\<lparr>x := sectionX, y := sectionY,
                                   width := expectedWidth, height := expectedHeight\<rparr>);
          ns4 = addFramesToSection section rels ns3
      in ns4(section := (ns4 section)\<lparr>pluginData := stringify msg\<rparr>))"


text \<open>
  Settings with a padding of 80 on every side, a horizontal layout and top alignment; a page
  with three squares of side 100, all selected; a page with a section that holds two
  frames, the section selected; and a page with a square of side 10 and, left of it, a node
  of width 0, selected in this order. \<open>noText\<close> stands for \<^verbatim>\<open>JSON.stringify\<close>.
\<close>

definition uniformPadding :: "rat \<Rightarrow> padding" where
  "uniformPadding p = \<lparr>padTop = p, padRight = p, padBottom = p, padLeft = p\<rparr>"

definition rowSettings :: "rat \<Rightarrow> settings" where
  "rowSettings gap =
     \<lparr>padding = uniformPadding 80, spacing = gap, layout = Horizontal, alignment = Top\<rparr>"

definition rowOnPage :: figma where
  "rowOnPage =
     \<lparr>nodes = (\<lambda>_. pageNode [])
        (0 := pageNode [1, 2, 3],
         1 := frameNode 0 0 100 100 0,
         2 := frameNode 110 0 100 100 0,
         3 := frameNode 220 0 100 100 0),
      currentPage = 0, selection = [1, 2, 3], originalSelectionToRestore = None\<rparr>"

definition sectionOnPage :: figma where
  "sectionOnPage =
     \<lparr>nodes = (\<lambda>_. pageNode [])
        (0 := pageNode [1],
         1 := sectionNode 50 50 300 200 0 [2, 3] ''settings'',
         2 := frameNode 10 10 100 100 1,
         3 := frameNode 120 40 100 60 1),
      currentPage = 0, selection = [1], originalSelectionToRestore = None\<rparr>"


definition noText :: "settings \<Rightarrow> string" where
  "noText msg = ''settings''"

section \<open>The gaps that detectSpacing keeps are non-negative\<close>

lemma rowSpacings_nonneg: "s \<in> set (rowSpacings row) \<Longrightarrow> 0 \<le> s"
  by (induction row rule: rowSpacings.induct) (auto simp: Let_def split: if_splits)

lemma horizontalSpacings_nonneg: "s \<in> set (horizontalSpacings rows) \<Longrightarrow> 0 \<le> s"
  by (auto simp: horizontalSpacings_def split: if_splits dest: rowSpacings_nonneg)

lemma verticalSpacings_nonneg: "s \<in> set (verticalSpacings rows) \<Longrightarrow> 0 \<le> s"
  by (induction rows rule: verticalSpacings.induct) (auto simp: Let_def split: if_splits)

lemma allSpacings_nonneg: "s \<in> set (allSpacings frames) \<Longrightarrow> 0 \<le> s"
  by (auto simp: allSpacings_def Let_def
      dest: horizontalSpacings_nonneg verticalSpacings_nonneg)

section \<open>Uniform gaps\<close>

text \<open>
  C1. For at least two rectangles whose merged gap list is not empty and has every gap
  within 2 units of the first gap, \<^verbatim>\<open>detectSpacing\<close> returns the first gap rounded to the
  nearest integer, also when that is 0: the result is \<^verbatim>\<open>Math.round\<close> of the first gap,
  an integer at most one half away from it.
\<close>

theorem C1_uniform_gaps_rounded_first:
  assumes "length frames \<ge> 2"
    and "allSpacings frames = firstSpacing # others"
    and "\<forall>s \<in> set (firstSpacing # others). \<bar>s - firstSpacing\<bar> \<le> 2"
  shows "detectSpacing frames = Some (rat_of_int (Math_round firstSpacing))
         \<and> \<bar>rat_of_int (Math_round firstSpacing) - firstSpacing\<bar> \<le> 1 / 2"
proof -
  have "firstSpacing \<in> set (allSpacings frames)"
    using assms(2) by simp
  then have "0 \<le> firstSpacing"
    by (rule allSpacings_nonneg)
  with assms have "detectSpacing frames = Some (rat_of_int (Math_round firstSpacing))"
    by (simp add: detectSpacing_def Let_def)
  moreover have "\<bar>rat_of_int (Math_round firstSpacing) - firstSpacing\<bar> \<le> 1 / 2"
    unfolding Math_round_def by linarith
  ultimately show ?thesis ..
qed

theorem C1_uniform_gaps_witness:
  "2 \<le> length threeInARow \<and> allSpacings threeInARow = 10 # [10]
   \<and> detectSpacing threeInARow = Some 10"
proof -
  have len: "2 \<le> length threeInARow"
    by (simp add: threeInARow_def)
  have gaps: "allSpacings threeInARow = 10 # [10]"
    by (simp add: threeInARow_def allSpacings_def sortedFrames_def array_sort_def rowOrder_def
        groupRows_def sortRow_def horizontalSpacings_def Let_def)
  have near: "\<forall>s \<in> set (10 # [10 :: rat]). \<bar>s - 10\<bar> \<le> 2"
    by simp
  have r: "Math_round 10 = 10"
    by (simp add: Math_round_def floor_eq_iff)
  show ?thesis
    using len gaps near C1_uniform_gaps_rounded_first [OF len gaps near] r
    by simp
qed

section \<open>Layout classification of wide arrangements\<close>

lemma foldl_max_Max: "foldl max v vs = Max (set (v # vs))" for v :: rat
proof -
  have "(\<lambda>a b. max b a) = (max :: rat \<Rightarrow> rat \<Rightarrow> rat)"
    by (intro ext) (rule max.commute)
  then show ?thesis
    by (simp add: foldl_conv_fold Max.set_eq_fold [symmetric] del: set_simps)
qed

lemma foldl_min_Min: "foldl min v vs = Min (set (v # vs))" for v :: rat
proof -
  have "(\<lambda>a b. min b a) = (min :: rat \<Rightarrow> rat \<Rightarrow> rat)"
    by (intro ext) (rule min.commute)
  then show ?thesis
    by (simp add: foldl_conv_fold Min.set_eq_fold [symmetric] del: set_simps)
qed

lemma Math_max_Max: "vs \<noteq> [] \<Longrightarrow> Math_max vs = Max (set vs)"
  by (cases vs) (simp_all add: foldl_max_Max del: set_simps)

lemma Math_min_Min: "vs \<noteq> [] \<Longrightarrow> Math_min vs = Min (set vs)"
  by (cases vs) (simp_all add: foldl_min_Min del: set_simps)

lemma foldl_add_sum_list: "foldl (+) a vs = a + sum_list vs" for a :: rat
  by (induction vs arbitrary: a) (simp_all add: add.assoc)

text \<open>
  C9. For at least two rectangles whose bounding box is more than 1.2 times as wide as it
  is high, \<^verbatim>\<open>detectLayoutAndAlignment\<close> answers horizontal, with the first alignment that
  holds in the order: tops within 2 units of the first rectangle's top, bottoms within 2
  units of the first rectangle's bottom, vertical centres within 2 units of their mean; and
  top when none holds.
\<close>

theorem C9_horizontal_alignment_order:
  assumes "length frames \<ge> 2"
    and "Max (set (map (\<lambda>f. x f + width f) frames)) - Min (set (map x frames))
           > (Max (set (map (\<lambda>f. y f + height f) frames)) - Min (set (map y frames)))
               * (12 / 10)"
  shows "detectLayoutAndAlignment frames =
           (Horizontal,
            if \<forall>f \<in> set frames. \<bar>y f - y (hd frames)\<bar> \<le> 2 then Top
            else if \<forall>f \<in> set frames.
                      \<bar>(y f + height f) - (y (hd frames) + height (hd frames))\<bar> \<le> 2
                 then Bottom
            else if \<forall>f \<in> set frames.
                      \<bar>(y f + height f / 2)
                         - (\<Sum>g \<leftarrow> frames. y g + height g / 2) / rat_of_nat (length frames)\<bar>
                        \<le> 2
                 then Center
            else Top)"
proof -
  from assms(1) have ne: "frames \<noteq> []" by auto
  have box: "Math_max (map (\<lambda>f. x f + width f) frames) - Math_min (map x frames)
           > (Math_max (map (\<lambda>f. y f + height f) frames) - Math_min (map y frames))
               * (12 / 10)"
    using assms(2) ne by (simp add: Math_max_Max Math_min_Min)
  have len: "\<not> length frames < 2" using assms(1) by simp
  show ?thesis
    unfolding detectLayoutAndAlignment_def Let_def
    using box ne len by (simp add: hd_map foldl_add_sum_list)
qed

theorem C9_horizontal_alignment_witness:
  "2 \<le> length bottomAligned3
   \<and> Max (set (map (\<lambda>f. x f + width f) bottomAligned3)) - Min (set (map x bottomAligned3))
       > (Max (set (map (\<lambda>f. y f + height f) bottomAligned3)) - Min (set (map y bottomAligned3)))
           * (12 / 10)
   \<and> detectLayoutAndAlignment bottomAligned3 = (Horizontal, Bottom)"
proof -
  have len: "2 \<le> length bottomAligned3"
    by (simp add: bottomAligned3_def)
  have box: "Max (set (map (\<lambda>f. x f + width f) bottomAligned3)) - Min (set (map x bottomAligned3))
       > (Max (set (map (\<lambda>f. y f + height f) bottomAligned3)) - Min (set (map y bottomAligned3)))
           * (12 / 10)"
    by (simp add: bottomAligned3_def)
  show ?thesis
    using len box C9_horizontal_alignment_order [OF len box]
    by (simp add: bottomAligned3_def)
qed

section \<open>The mode-seeking fallback of detectSpacing\<close>

lemma pushSpacing_keys: "fst ` set (pushSpacing r s groups) = insert r (fst ` set groups)"
  by (induction r s groups rule: pushSpacing.induct) auto

lemma pushSpacing_sorted:
  "sorted_wrt (<) (map fst groups) \<Longrightarrow> sorted_wrt (<) (map fst (pushSpacing r s groups))"
proof (induction r s groups rule: pushSpacing.induct)
  case (1 r s)
  then show ?case by simp
next
  case (2 r s k grp rest)
  have keys: "fst ` set (pushSpacing r s rest) = insert r (fst ` set rest)"
    by (rule pushSpacing_keys)
  from 2 show ?case
    by (auto simp: keys)
qed

lemma pushSpacing_map_of:
  "sorted_wrt (<) (map fst groups) \<Longrightarrow>
   map_of (pushSpacing r s groups) k =
     (if k = r then Some ((case map_of groups r of None \<Rightarrow> [] | Some g \<Rightarrow> g) @ [s])
      else map_of groups k)"
proof (induction r s groups rule: pushSpacing.induct)
  case (1 r s)
  then show ?case by simp
next
  case (2 r s k' grp rest)
  have none: "r < k' \<Longrightarrow> map_of rest r = None"
  proof -
    assume lt: "r < k'"
    have "r \<notin> fst ` set rest"
      using 2(2) lt by force
    then show ?thesis by (simp add: map_of_eq_None_iff)
  qed
  from 2 none show ?case
    by (auto split: option.splits)
qed

lemma spacingGroups_snoc:
  "spacingGroups (gaps @ [s]) = pushSpacing (Math_round s) s (spacingGroups gaps)"
  by (simp add: spacingGroups_def)

lemma spacingGroups_sorted: "sorted_wrt (<) (map fst (spacingGroups gaps))"
proof (induction gaps rule: rev_induct)
  case Nil
  then show ?case by (simp add: spacingGroups_def)
next
  case (snoc s gaps)
  then show ?case by (simp add: spacingGroups_snoc pushSpacing_sorted)
qed

lemma spacingGroups_map_of:
  "map_of (spacingGroups gaps) k =
     (if filter (\<lambda>s. Math_round s = k) gaps = [] then None
      else Some (filter (\<lambda>s. Math_round s = k) gaps))"
proof (induction gaps arbitrary: k rule: rev_induct)
  case Nil
  then show ?case by (simp add: spacingGroups_def)
next
  case (snoc s gaps)
  show ?case
    by (simp add: spacingGroups_snoc pushSpacing_map_of [OF spacingGroups_sorted] snoc)
qed

lemma spacingGroups_member:
  "(k, grp) \<in> set (spacingGroups gaps) \<longleftrightarrow>
     grp = filter (\<lambda>s. Math_round s = k) gaps \<and> grp \<noteq> []"
proof -
  have d: "distinct (map fst (spacingGroups gaps))"
    using spacingGroups_sorted [of gaps] by (simp add: strict_sorted_iff)
  have "(k, grp) \<in> set (spacingGroups gaps) \<longleftrightarrow> map_of (spacingGroups gaps) k = Some grp"
    using d by simp
  then show ?thesis
    by (auto simp: spacingGroups_map_of)
qed

lemma Math_round_nonneg: "0 \<le> s \<Longrightarrow> 0 \<le> Math_round s"
  by (simp add: Math_round_def)

lemma mostCommon_stays:
  "\<forall>(k, grp) \<in> set groups. length grp \<le> m \<Longrightarrow>
   foldl (\<lambda>(maxCount, mostCommonSpacing) (rounded, grp).
              if length grp > maxCount then (length grp, Some rounded)
              else (maxCount, mostCommonSpacing)) (m, c) groups = (m, c)"
  by (induction groups) auto

lemma mostCommon_zero_first:
  assumes sorted: "sorted_wrt (<) (map fst groups)"
    and nonneg: "\<forall>k \<in> fst ` set groups. 0 \<le> k"
    and zero: "(0, g0) \<in> set groups" "g0 \<noteq> []"
    and most: "\<forall>(k, grp) \<in> set groups. length grp \<le> length g0"
  shows "mostCommon groups = (length g0, Some 0)"
proof (cases groups)
  case Nil
  with zero show ?thesis by simp
next
  case (Cons first rest)
  obtain k grp where first: "first = (k, grp)" by (cases first)
  have "k = 0"
  proof (rule ccontr)
    assume "k \<noteq> 0"
    with zero(1) Cons first have "(0, g0) \<in> set rest" by auto
    then have "0 \<in> fst ` set rest" by force
    with sorted Cons first have "k < 0" by auto
    moreover have "0 \<le> k" using nonneg Cons first by auto
    ultimately show False by simp
  qed
  have d: "distinct (map fst groups)"
    using sorted by (simp add: strict_sorted_iff)
  have "map_of groups 0 = Some g0"
    using d zero(1) by simp
  then have "grp = g0"
    using Cons first \<open>k = 0\<close> by simp
  have rest: "\<forall>(k, grp) \<in> set rest. length grp \<le> length g0"
    using most Cons by auto
  show ?thesis
    unfolding mostCommon_def Cons first \<open>k = 0\<close> \<open>grp = g0\<close>
    using zero(2) mostCommon_stays [OF rest] by simp
qed

lemma bestNonZeroShare_snoc:
  "bestNonZeroShare len (groups @ [(k, grp)]) =
     (if qualifies len (k, grp) \<and> length grp > fst (bestNonZeroShare len groups)
      then (length grp, Some k) else bestNonZeroShare len groups)"
  by (auto simp: bestNonZeroShare_def qualifies_def split: prod.splits)

lemma bestNonZeroShare_spec:
  "(case bestNonZeroShare len groups of
      (c, None) \<Rightarrow> c = 0 \<and> (\<forall>e \<in> set groups. \<not> qualifies len e)
    | (c, Some v) \<Rightarrow> (\<exists>grp. (v, grp) \<in> set groups \<and> qualifies len (v, grp) \<and> c = length grp)
                     \<and> (\<forall>e \<in> set groups. qualifies len e \<longrightarrow> length (snd e) \<le> c))"
proof (induction groups rule: rev_induct)
  case Nil
  then show ?case by (simp add: bestNonZeroShare_def)
next
  case (snoc e groups)
  obtain k grp where e: "e = (k, grp)" by (cases e)
  obtain c b where r: "bestNonZeroShare len groups = (c, b)" by (cases "bestNonZeroShare len groups")
  have step: "bestNonZeroShare len (groups @ [e]) =
      (if qualifies len (k, grp) \<and> length grp > c then (length grp, Some k) else (c, b))"
    by (simp add: e bestNonZeroShare_snoc r)
  show ?case
  proof (cases b)
    case None
    with snoc r have ih: "c = 0" "\<forall>e \<in> set groups. \<not> qualifies len e"
      by auto
    have "qualifies len (k, grp) \<Longrightarrow> length grp > 0"
      by (auto simp: qualifies_def)
    with ih show ?thesis
      unfolding step by (auto simp: None e)
  next
    case (Some v)
    with snoc r obtain g where ih: "(v, g) \<in> set groups" "qualifies len (v, g)" "c = length g"
      "\<forall>e \<in> set groups. qualifies len e \<longrightarrow> length (snd e) \<le> c"
      by auto
    show ?thesis
    proof (cases "qualifies len (k, grp) \<and> length grp > c")
      case True
      then show ?thesis
        unfolding step using ih(4) by (auto simp: e) 
    next
      case False
      then show ?thesis
        unfolding step using ih by (auto simp: e Some)
    qed
  qed
qed

lemma filter_two_keys:
  "k \<noteq> j \<Longrightarrow> length (filter (\<lambda>s. f s = k) vs) + length (filter (\<lambda>s. f s = j) vs) \<le> length vs"
  by (induction vs) auto

lemmas detect_eval = allSpacings_def sortedFrames_def array_sort_def rowOrder_def groupRows_def
  sortRow_def horizontalSpacings_def Let_def

text \<open>
  C2, as stated, fails. With the gaps 0, 0, 0, 5, 5 the group of 0 is the largest and holds
  60\% of the gaps, the group of 5 has 2 members and 40\%, and the result is 0: the source
  looks for a non-zero group only when the group of 0 holds less than half of the gaps.
\<close>

theorem C2_counterexample:
  "allSpacings zeroHeavy = [0, 0, 0, 5, 5] \<and> detectSpacing zeroHeavy = Some 0"
proof -
  have gaps: "allSpacings zeroHeavy = [0, 0, 0, 5, 5]"
    by (simp add: zeroHeavy_def detect_eval)
  have r0: "Math_round 0 = 0" and r5: "Math_round 5 = 5"
    by (simp_all add: Math_round_def floor_eq_iff)
  have groups: "spacingGroups [0, 0, 0, 5, 5] = [(0, [0, 0, 0]), (5, [5, 5])]"
    by (simp add: spacingGroups_def r0 r5)
  have "modeSpacing [0, 0, 0, 5, 5] = Some 0"
    by (simp add: modeSpacing_def groups mostCommon_def)
  then have "detectSpacing zeroHeavy = Some 0"
    by (simp add: detectSpacing_def gaps) (simp add: zeroHeavy_def)
  with gaps show ?thesis by simp
qed

text \<open>
  C2, amended. When the gaps are not uniform: if no group is larger than the group of 0,
  the group of 0 holds at least 20\% and less than 50\% of the gaps, and some non-zero
  group has at least 2 members and at least 5\% of the gaps, then \<^verbatim>\<open>detectSpacing\<close>
  returns the value of a non-zero group that has at least 2 members and 5\% of the gaps and
  is largest among the groups that do; and if the group of 0 holds 50\% of the gaps or
  more, \<^verbatim>\<open>detectSpacing\<close> returns 0.
\<close>

theorem C2_nonzero_preferred:
  fixes frames :: "'a rect_scheme list"
  defines "gaps \<equiv> allSpacings frames"
  defines "cnt \<equiv> \<lambda>k. length (filter (\<lambda>s. Math_round s = k) (allSpacings frames))"
  defines "share \<equiv> \<lambda>k. rat_of_nat (length (filter (\<lambda>s. Math_round s = k) (allSpacings frames)))
                       \<ge> rat_of_nat (length (allSpacings frames)) * (5 / 100)"
  assumes len: "length frames \<ge> 2"
    and nonempty: "gaps \<noteq> []"
    and uneven: "\<exists>s \<in> set gaps. \<bar>s - hd gaps\<bar> > 2"
  shows "((\<forall>k. cnt k \<le> cnt 0)
            \<and> rat_of_nat (cnt 0) \<ge> rat_of_nat (length gaps) * (2 / 10)
            \<and> rat_of_nat (cnt 0) < rat_of_nat (length gaps) * (5 / 10)
            \<and> (\<exists>k. k \<noteq> 0 \<and> cnt k \<ge> 2 \<and> share k)
          \<longrightarrow> (\<exists>v. detectSpacing frames = Some (rat_of_int v) \<and> v \<noteq> 0 \<and> cnt v \<ge> 2 \<and> share v
                   \<and> (\<forall>k. k \<noteq> 0 \<and> cnt k \<ge> 2 \<and> share k \<longrightarrow> cnt k \<le> cnt v)))
       \<and> (rat_of_nat (cnt 0) \<ge> rat_of_nat (length gaps) * (5 / 10)
          \<longrightarrow> detectSpacing frames = Some 0)"
proof -
  define groups where "groups = spacingGroups gaps"
  have member: "(k, grp) \<in> set groups \<longleftrightarrow> grp = filter (\<lambda>s. Math_round s = k) gaps \<and> grp \<noteq> []"
    for k grp
    unfolding groups_def by (rule spacingGroups_member)
  have cnt: "cnt k = length (filter (\<lambda>s. Math_round s = k) gaps)" for k
    by (simp add: cnt_def gaps_def)
  have keys: "0 \<le> k" if "cnt k > 0" for k
  proof -
    from that obtain s where "s \<in> set gaps" "Math_round s = k"
      unfolding cnt by (auto simp: filter_empty_conv)
    then show ?thesis
      using allSpacings_nonneg [of s frames] Math_round_nonneg by (auto simp: gaps_def)
  qed
  have q: "qualifies (length gaps) (k, grp) \<longleftrightarrow> k \<noteq> 0 \<and> cnt k \<ge> 2 \<and> share k"
    if "(k, grp) \<in> set groups" for k grp
  proof -
    from that member [of k grp]
    have grp: "grp = filter (\<lambda>s. Math_round s = k) gaps" "grp \<noteq> []"
      by blast+
    then have "cnt k > 0" by (simp add: cnt)
    then have "0 \<le> k" by (rule keys)
    then show ?thesis
      using grp by (auto simp: qualifies_def share_def cnt gaps_def)
  qed
  have pos: "0 < length gaps" using nonempty by simp
  obtain first rest where fr: "allSpacings frames = first # rest"
    using nonempty by (cases "allSpacings frames") (auto simp: gaps_def)
  have "\<not> (\<forall>s \<in> set (allSpacings frames). \<bar>s - first\<bar> \<le> 2)"
    using uneven fr by (auto simp: gaps_def not_le)
  then have fallback: "detectSpacing frames = modeSpacing gaps"
    using len fr by (auto simp: detectSpacing_def Let_def gaps_def)
  have mc: "mostCommon groups = (cnt 0, Some 0)"
    if most: "\<forall>k. cnt k \<le> cnt 0"
      and fifth: "rat_of_nat (cnt 0) \<ge> rat_of_nat (length gaps) * (2 / 10)"
  proof -
    have "0 < rat_of_nat (length gaps) * (2 / 10)" using pos by simp
    with fifth have c0: "cnt 0 > 0" by (cases "cnt 0") auto
    define g0 where "g0 = filter (\<lambda>s. Math_round s = 0) gaps"
    have g0: "(0, g0) \<in> set groups" "g0 \<noteq> []" "length g0 = cnt 0"
      using c0 by (auto simp: member g0_def cnt)
    have "mostCommon groups = (length g0, Some 0)"
    proof (rule mostCommon_zero_first [OF _ _ g0(1) g0(2)])
      show "sorted_wrt (<) (map fst groups)"
        unfolding groups_def by (rule spacingGroups_sorted)
      show "\<forall>k \<in> fst ` set groups. 0 \<le> k"
      proof
        fix k assume "k \<in> fst ` set groups"
        then obtain grp where "(k, grp) \<in> set groups" by auto
        then have "cnt k > 0" by (auto simp: member cnt)
        then show "0 \<le> k" by (rule keys)
      qed
      show "\<forall>(k, grp) \<in> set groups. length grp \<le> length g0"
        using most by (auto simp: member g0(3) cnt)
    qed
    then show ?thesis by (simp add: g0(3))
  qed
  have part1: "\<exists>v. detectSpacing frames = Some (rat_of_int v) \<and> v \<noteq> 0 \<and> cnt v \<ge> 2 \<and> share v
             \<and> (\<forall>k. k \<noteq> 0 \<and> cnt k \<ge> 2 \<and> share k \<longrightarrow> cnt k \<le> cnt v)"
    if most: "\<forall>k. cnt k \<le> cnt 0"
      and fifth: "rat_of_nat (cnt 0) \<ge> rat_of_nat (length gaps) * (2 / 10)"
      and half: "rat_of_nat (cnt 0) < rat_of_nat (length gaps) * (5 / 10)"
      and other: "\<exists>k. k \<noteq> 0 \<and> cnt k \<ge> 2 \<and> share k"
  proof -
    from other obtain k where k: "k \<noteq> 0" "cnt k \<ge> 2" "share k" by auto
    then have kin: "(k, filter (\<lambda>s. Math_round s = k) gaps) \<in> set groups"
      by (auto simp: member cnt)
    have kq: "qualifies (length gaps) (k, filter (\<lambda>s. Math_round s = k) gaps)"
      using q [OF kin] k by simp
    obtain c b where r: "bestNonZeroShare (length gaps) groups = (c, b)"
      by (cases "bestNonZeroShare (length gaps) groups")
    have spec: "case (c, b) of
        (c, None) \<Rightarrow> c = 0 \<and> (\<forall>e \<in> set groups. \<not> qualifies (length gaps) e)
      | (c, Some v) \<Rightarrow> (\<exists>grp. (v, grp) \<in> set groups \<and> qualifies (length gaps) (v, grp) \<and> c = length grp)
                       \<and> (\<forall>e \<in> set groups. qualifies (length gaps) e \<longrightarrow> length (snd e) \<le> c)"
      using bestNonZeroShare_spec [where len = "length gaps" and groups = groups] by (simp add: r)
    have "b \<noteq> None"
      using spec kin kq by (auto split: option.splits)
    then obtain v where b: "b = Some v" by auto
    from spec b obtain grp where v: "(v, grp) \<in> set groups" "qualifies (length gaps) (v, grp)"
      "c = length grp" and best: "\<forall>e \<in> set groups. qualifies (length gaps) e \<longrightarrow> length (snd e) \<le> c"
      by auto
    have vq: "v \<noteq> 0 \<and> cnt v \<ge> 2 \<and> share v"
      using q [OF v(1)] v(2) by simp
    have cv: "c = cnt v"
      using v(1) v(3) by (simp add: member cnt)
    have maxi: "cnt j \<le> cnt v" if "j \<noteq> 0 \<and> cnt j \<ge> 2 \<and> share j" for j
    proof -
      from that have jin: "(j, filter (\<lambda>s. Math_round s = j) gaps) \<in> set groups"
        by (auto simp: member cnt)
      with that have "qualifies (length gaps) (j, filter (\<lambda>s. Math_round s = j) gaps)"
        using q [OF jin] by simp
      with best jin have "length (filter (\<lambda>s. Math_round s = j) gaps) \<le> c"
        by fastforce
      then show ?thesis by (simp add: cv cnt)
    qed
    have mode: "modeSpacing gaps = Some (rat_of_int v)"
      using mc [OF most fifth] r b fifth half
      by (simp add: modeSpacing_def Let_def groups_def [symmetric])
    with fallback vq maxi show ?thesis
      by auto
  qed
  have part2: "detectSpacing frames = Some 0"
    if half: "rat_of_nat (cnt 0) \<ge> rat_of_nat (length gaps) * (5 / 10)"
  proof -
    have two: "length gaps \<le> 2 * cnt 0"
    proof -
      from half have "rat_of_nat (length gaps) \<le> rat_of_nat (2 * cnt 0)" by simp
      then show ?thesis by (simp only: of_nat_le_iff)
    qed
    have most: "\<forall>k. cnt k \<le> cnt 0"
    proof
      fix k
      show "cnt k \<le> cnt 0"
      proof (cases "k = 0")
        case True
        then show ?thesis by simp
      next
        case False
        then have "cnt k + cnt 0 \<le> length gaps"
          unfolding cnt by (rule filter_two_keys)
        with two show ?thesis by simp
      qed
    qed
    have fifth: "rat_of_nat (cnt 0) \<ge> rat_of_nat (length gaps) * (2 / 10)"
    proof -
      have "rat_of_nat (length gaps) * (2 / 10) \<le> rat_of_nat (length gaps) * (5 / 10)"
        by simp
      with half show ?thesis by simp
    qed
    have "modeSpacing gaps = Some 0"
      using mc [OF most fifth] fifth half
      by (simp add: modeSpacing_def Let_def groups_def [symmetric])
    with fallback show ?thesis by simp
  qed
  from part1 part2 show ?thesis by blast
qed

theorem C2_nonzero_preferred_witness:
  "2 \<le> length zeroLight \<and> allSpacings zeroLight = [0, 0, 5, 5, 9]
   \<and> detectSpacing zeroLight = Some 5
   \<and> 2 \<le> length zeroHalf \<and> allSpacings zeroHalf = [0, 0, 5, 5]
   \<and> detectSpacing zeroHalf = Some 0"
proof -
  have len: "2 \<le> length zeroLight"
    by (simp add: zeroLight_def)
  have gaps: "allSpacings zeroLight = [0, 0, 5, 5, 9]"
    by (simp add: zeroLight_def detect_eval)
  have r: "Math_round 0 = 0" "Math_round 5 = 5" "Math_round 9 = 9"
    by (simp_all add: Math_round_def floor_eq_iff)
  have cnt: "length (filter (\<lambda>s. Math_round s = k) (allSpacings zeroLight))
      = (if k = 0 then 2 else if k = 5 then 2 else if k = 9 then 1 else 0)" for k
    by (simp add: gaps r)
  have ne: "allSpacings zeroLight \<noteq> []" by (simp add: gaps)
  have un: "\<exists>s \<in> set (allSpacings zeroLight). 2 < \<bar>s - hd (allSpacings zeroLight)\<bar>"
    by (simp add: gaps)
  have most: "\<forall>k. length (filter (\<lambda>s. Math_round s = k) (allSpacings zeroLight))
              \<le> length (filter (\<lambda>s. Math_round s = 0) (allSpacings zeroLight))"
    by (simp add: cnt)
  have fifth: "rat_of_nat (length (allSpacings zeroLight)) * (2 / 10)
            \<le> rat_of_nat (length (filter (\<lambda>s. Math_round s = 0) (allSpacings zeroLight)))"
    by (simp add: cnt) (simp add: gaps)
  have half: "rat_of_nat (length (filter (\<lambda>s. Math_round s = 0) (allSpacings zeroLight)))
            < rat_of_nat (length (allSpacings zeroLight)) * (5 / 10)"
    by (simp add: cnt) (simp add: gaps)
  have other: "\<exists>k. k \<noteq> 0 \<and> 2 \<le> length (filter (\<lambda>s. Math_round s = k) (allSpacings zeroLight))
            \<and> rat_of_nat (length (allSpacings zeroLight)) * (5 / 100)
                \<le> rat_of_nat (length (filter (\<lambda>s. Math_round s = k) (allSpacings zeroLight)))"
    by (rule exI [of _ 5]) (simp add: cnt, simp add: gaps)
  from C2_nonzero_preferred [OF len ne un] most fifth half other
  have "\<exists>v. detectSpacing zeroLight = Some (rat_of_int v) \<and> v \<noteq> 0
          \<and> length (filter (\<lambda>s. Math_round s = v) (allSpacings zeroLight)) \<ge> 2"
    by blast
  then obtain v where v: "detectSpacing zeroLight = Some (rat_of_int v)" "v \<noteq> 0"
    "length (filter (\<lambda>s. Math_round s = v) (allSpacings zeroLight)) \<ge> 2"
    by blast
  from v(2,3) have "v = 5"
    by (simp add: cnt split: if_splits)
  with v(1) have light: "detectSpacing zeroLight = Some 5" by simp
  have len2: "2 \<le> length zeroHalf"
    by (simp add: zeroHalf_def)
  have gaps2: "allSpacings zeroHalf = [0, 0, 5, 5]"
    by (simp add: zeroHalf_def detect_eval)
  have ne2: "allSpacings zeroHalf \<noteq> []" by (simp add: gaps2)
  have un2: "\<exists>s \<in> set (allSpacings zeroHalf). 2 < \<bar>s - hd (allSpacings zeroHalf)\<bar>"
    by (simp add: gaps2)
  have half2: "rat_of_nat (length (allSpacings zeroHalf)) * (5 / 10)
      \<le> rat_of_nat (length (filter (\<lambda>s. Math_round s = 0) (allSpacings zeroHalf)))"
    by (simp add: gaps2 r)
  from C2_nonzero_preferred [OF len2 ne2 un2] half2
  have heavy: "detectSpacing zeroHalf = Some 0"
    by blast
  from len gaps light len2 gaps2 heavy show ?thesis by simp
qed

section \<open>Row clustering\<close>

text \<open>
  C8, as stated, fails on two points. Two rectangles with \<^verbatim>\<open>y\<close> 0 and 10 are within 10
  units of each other, and the source puts them in two rows: its test is
  \<^verbatim>\<open>Math.abs(frame.y - currentRowY) < 10\<close>. And the pass is not in \<open>(y, x)\<close> order:
  two rectangles less than 10 apart in \<^verbatim>\<open>y\<close> are ordered by \<^verbatim>\<open>x\<close> alone.
\<close>

theorem C8_counterexample:
  "groupRows (sortedFrames tenApart)
     = [[\<lparr>x = 0, y = 0, width = 10, height = 5\<rparr>], [\<lparr>x = 20, y = 10, width = 10, height = 5\<rparr>]]
   \<and> claimedRows tenApart
     = [[\<lparr>x = 0, y = 0, width = 10, height = 5\<rparr>, \<lparr>x = 20, y = 10, width = 10, height = 5\<rparr>]]
   \<and> sortedFrames fiveApart
     = [\<lparr>x = 0, y = 5, width = 10, height = 5\<rparr>, \<lparr>x = 100, y = 0, width = 10, height = 5\<rparr>]
   \<and> array_sort claimedOrder fiveApart
     = [\<lparr>x = 100, y = 0, width = 10, height = 5\<rparr>, \<lparr>x = 0, y = 5, width = 10, height = 5\<rparr>]"
  by (simp add: tenApart_def fiveApart_def groupRows_def sortedFrames_def array_sort_def
      rowOrder_def claimedRows_def claimedOrder_def)

lemma groupLoop_rows:
  "groupLoop fs rows cur ref = rows @ groupLoop fs [] cur ref"
proof (induction fs arbitrary: rows cur ref)
  case Nil
  then show ?case by simp
next
  case (Cons f fs)
  show ?case
  proof (cases "\<bar>y f - ref\<bar> < 10")
    case True
    then show ?thesis using Cons [of rows "cur @ [f]" ref] by simp
  next
    case False
    then show ?thesis
      using Cons [of "rows @ [cur]" "[f]" "y f"] Cons [of "[cur]" "[f]" "y f"]
        Cons [of rows "[f]" "y f"]
      by simp
  qed
qed

lemma groupLoop_run:
  assumes "cur \<noteq> []" and "\<forall>f \<in> set cur. \<bar>y f - y (hd cur)\<bar> < 10"
  shows "concat (groupLoop fs [] cur (y (hd cur))) = cur @ fs
         \<and> rowsWellFormed (groupLoop fs [] cur (y (hd cur)))
         \<and> hd (concat (groupLoop fs [] cur (y (hd cur)))) = hd cur"
  using assms
proof (induction fs arbitrary: cur)
  case Nil
  then show ?case by (simp add: rowsWellFormed_def)
next
  case (Cons f fs)
  show ?case
  proof (cases "\<bar>y f - y (hd cur)\<bar> < 10")
    case True
    have "concat (groupLoop fs [] (cur @ [f]) (y (hd (cur @ [f])))) = (cur @ [f]) @ fs
         \<and> rowsWellFormed (groupLoop fs [] (cur @ [f]) (y (hd (cur @ [f]))))
         \<and> hd (concat (groupLoop fs [] (cur @ [f]) (y (hd (cur @ [f]))))) = hd (cur @ [f])"
      by (rule Cons.IH) (use Cons.prems True in auto)
    with True Cons.prems(1) show ?thesis by simp
  next
    case False
    let ?rs = "groupLoop fs [] [f] (y f)"
    have ih: "concat ?rs = [f] @ fs \<and> rowsWellFormed ?rs \<and> hd (concat ?rs) = hd [f]"
      using Cons.IH [of "[f]"] by simp
    have step: "groupLoop (f # fs) [] cur (y (hd cur)) = cur # ?rs"
      using False Cons.prems(1) groupLoop_rows [of fs "[cur]" "[f]" "y f"] by simp
    from ih have ne: "?rs \<noteq> []" by auto
    from ih have "[] \<notin> set ?rs" by (simp add: rowsWellFormed_def)
    with ne have "hd ?rs \<noteq> []" by (cases ?rs) auto
    with ne have "hd (concat ?rs) = hd (hd ?rs)" by (cases ?rs) auto
    with ih have hdf: "hd (hd ?rs) = f" by simp
    show ?thesis
      unfolding step
      using ih Cons.prems False ne hdf
      by (auto simp: rowsWellFormed_def successively_Cons)
  qed
qed

lemma insort_cmp_mset: "mset (insort_cmp cmp a bs) = add_mset a (mset bs)"
  by (induction bs) auto

lemma array_sort_mset: "mset (array_sort cmp vs) = mset vs"
  by (induction vs) (auto simp: array_sort_def insort_cmp_mset)

text \<open>
  C8, amended. The rows are cut from the sorted list in one pass and in its order (the
  sort compares by \<^verbatim>\<open>x\<close> two rectangles whose \<^verbatim>\<open>y\<close> differ by less than 10, and by
  \<^verbatim>\<open>y\<close> otherwise). A rectangle joins the current row exactly when its \<^verbatim>\<open>y\<close> is less
  than 10 units from the row's reference, the \<^verbatim>\<open>y\<close> of the row's first member; otherwise
  it starts a new row, of which it is the first member.
\<close>

theorem C8_rows_single_pass:
  "concat (groupRows (sortedFrames frames)) = sortedFrames frames
   \<and> mset (sortedFrames frames) = mset frames
   \<and> [] \<notin> set (groupRows (sortedFrames frames))
   \<and> (\<forall>row \<in> set (groupRows (sortedFrames frames)). \<forall>f \<in> set row. \<bar>y f - y (hd row)\<bar> < 10)
   \<and> successively (\<lambda>row nextRow. \<not> \<bar>y (hd nextRow) - y (hd row)\<bar> < 10)
        (groupRows (sortedFrames frames))"
proof (cases "sortedFrames frames")
  case Nil
  then show ?thesis
    using array_sort_mset [of rowOrder frames] by (simp add: groupRows_def sortedFrames_def)
next
  case (Cons f fs)
  have "groupRows (sortedFrames frames) = groupLoop fs [] [f] (y (hd [f]))"
    by (simp add: Cons groupRows_def)
  moreover have "concat (groupLoop fs [] [f] (y (hd [f]))) = [f] @ fs
         \<and> rowsWellFormed (groupLoop fs [] [f] (y (hd [f])))
         \<and> hd (concat (groupLoop fs [] [f] (y (hd [f])))) = hd [f]"
    by (rule groupLoop_run) simp_all
  ultimately show ?thesis
    using Cons array_sort_mset [of rowOrder frames]
    by (simp add: rowsWellFormed_def sortedFrames_def)
qed

theorem C8_rows_witness:
  "concat (groupRows (sortedFrames tenApart)) = sortedFrames tenApart
   \<and> [] \<notin> set (groupRows (sortedFrames tenApart))"
  using C8_rows_single_pass [of tenApart] by blast

section \<open>The section an operation works on\<close>

lemma findParentSection_self:
  "ntype (ns n) = SECTION \<Longrightarrow> findParentSection ns n = Some (Some n)"
  by (subst findParentSection.simps) simp

lemma findParentSection_chain:
  assumes "ancestorChain ns n ps s"
    and "\<forall>p \<in> set ps. ntype (ns p) \<noteq> SECTION \<and> ntype (ns p) \<noteq> PAGE"
    and "ntype (ns s) = SECTION"
    and "ntype (ns n) \<noteq> SECTION"
  shows "findParentSection ns n = Some (Some s)"
  using assms
proof (induction ps arbitrary: n)
  case Nil
  then show ?case
    by (subst findParentSection.simps) (simp add: findParentSection_self)
next
  case (Cons p ps)
  then have "findParentSection ns p = Some (Some s)" by simp
  with Cons.prems show ?case
    by (subst findParentSection.simps) simp
qed

lemma updateSection_selection:
  "selection (snd (updateSection stringify msg st)) = selection st"
  by (simp add: updateSection_def Let_def split: option.splits)

lemma updateSection_currentPage:
  "currentPage (snd (updateSection stringify msg st)) = currentPage st"
  by (simp add: updateSection_def Let_def split: option.splits)

lemma handler_lookup:
  "(if ntype (ns n) = SECTION then Some (Some n) else findParentSection ns n)
     = findParentSection ns n"
  by (simp add: findParentSection_self)

text \<open>
  C10. When the selected node is not a section and the first section up its parent chain
  lies inside a further section, \<^verbatim>\<open>findParentSection\<close> returns the first one, and both
  \<^verbatim>\<open>handleUpdateSection\<close> and \<^verbatim>\<open>handleRefreshSection\<close> return with that section as the
  selection they work on.
\<close>

theorem C10_nearest_section:
  assumes sel: "selection st = [n]"
    and notsec: "ntype (nodes st n) \<noteq> SECTION"
    and up: "ancestorChain (nodes st) n between inner"
    and between: "\<forall>p \<in> set between. ntype (nodes st p) \<noteq> SECTION \<and> ntype (nodes st p) \<noteq> PAGE"
    and inner: "ntype (nodes st inner) = SECTION"
    and further: "ancestorChain (nodes st) inner beyond outer"
    and outer: "ntype (nodes st outer) = SECTION"
  shows "findParentSection (nodes st) n = Some (Some inner)
         \<and> (\<exists>r st'. handleUpdateSection parse st = Some (r, st') \<and> selection st' = [inner])
         \<and> (\<exists>r st'. handleRefreshSection parse stringify st = Some (r, st')
                      \<and> selection st' = [inner])"
proof -
  have found: "findParentSection (nodes st) n = Some (Some inner)"
    using up between inner notsec by (rule findParentSection_chain)
  have upd: "\<exists>r st'. handleUpdateSection parse st = Some (r, st') \<and> selection st' = [inner]"
    using sel notsec found
    by (simp add: handleUpdateSection_def Let_def split: option.splits)
  have "\<exists>r st'. handleRefreshSection parse stringify st = Some (r, st') \<and> selection st' = [inner]"
  proof -
    let ?st2 = "st\<lparr>originalSelectionToRestore := Some [n], selection := [inner]\<rparr>"
    have u: "\<exists>r st'. updateSection stringify m ?st2 = (r, st') \<and> selection st' = [inner]" for m
    proof -
      have "selection (snd (updateSection stringify m ?st2)) = [inner]"
        by (simp add: updateSection_selection)
      then show ?thesis
        by (cases "updateSection stringify m ?st2") simp
    qed
    show ?thesis
      using sel notsec found u
      by (auto simp: handleRefreshSection_def Let_def split: option.splits)
  qed
  with found upd show ?thesis by blast
qed

text \<open>
  C6. When the section that Refresh works on has no stored settings, the handler stops
  with \<open>NoStoredConfigurationError\<close>, whatever the section contains, and the document is
  the one it started with: no position, size, parent, child list or stored string of any
  node has changed. (The handler has made the section the selection by then.)
\<close>

theorem C6_refresh_without_settings:
  assumes sel: "selection st = [n]"
    and target: "findParentSection (nodes st) n = Some (Some s)"
    and nothing: "pluginData (nodes st s) = []"
  shows "\<exists>st'. handleRefreshSection parse stringify st = Some (Inl NoStoredConfigurationError, st')
              \<and> nodes st' = nodes st \<and> currentPage st' = currentPage st"
  using assms
  by (simp add: handleRefreshSection_def Let_def handler_lookup)

text \<open>
  C7. When the stored string of the section does not parse, \<^verbatim>\<open>handleUpdateSection\<close> on a
  section with members posts the \<^verbatim>\<open>init\<close> message of the detection branch: the spacing
  and the layout detected on the members' absolute geometry, and the padding between the
  section's edges and the members' bounds, clamped at 0 and rounded.
  \<^verbatim>\<open>handleRefreshSection\<close> stops with \<open>MalformedStoredConfigurationError\<close>. Neither
  changes the document. (On a section without members \<^verbatim>\<open>handleUpdateSection\<close> stops
  before it reads the stored string.)
\<close>

theorem C7_malformed_settings:
  assumes sel: "selection st = [n]"
    and target: "findParentSection (nodes st) n = Some (Some s)"
    and stored: "pluginData (nodes st s) \<noteq> []"
    and malformed: "parse (pluginData (nodes st s)) = None"
    and members: "findFramesInSection (nodes st) s = m # ms"
  shows "(\<exists>msg st'. handleUpdateSection parse st = Some (Inr msg, st')
            \<and> nodes st' = nodes st
            \<and> detectedSpacing msg = detectSpacing (absoluteFrames (nodes st) s (m # ms))
            \<and> (detectedLayout msg, detectedAlignment msg)
                = detectLayoutAndAlignment (absoluteFrames (nodes st) s (m # ms))
            \<and> padTop (currentPadding msg)
                = rat_of_int (Math_round (max 0 (Min (set (map (\<lambda>f. y (nodes st f)) (m # ms))))))
            \<and> padLeft (currentPadding msg)
                = rat_of_int (Math_round (max 0 (Min (set (map (\<lambda>f. x (nodes st f)) (m # ms))))))
            \<and> padRight (currentPadding msg)
                = rat_of_int (Math_round (max 0 (width (nodes st s)
                    - Max (set (map (\<lambda>f. x (nodes st f) + width (nodes st f)) (m # ms))))))
            \<and> padBottom (currentPadding msg)
                = rat_of_int (Math_round (max 0 (height (nodes st s)
                    - Max (set (map (\<lambda>f. y (nodes st f) + height (nodes st f)) (m # ms)))))))
         \<and> (\<exists>st'. handleRefreshSection parse stringify st
                      = Some (Inl MalformedStoredConfigurationError, st')
                  \<and> nodes st' = nodes st)"
proof -
  have refresh: "\<exists>st'. handleRefreshSection parse stringify st
                      = Some (Inl MalformedStoredConfigurationError, st') \<and> nodes st' = nodes st"
    using sel target stored malformed
    by (simp add: handleRefreshSection_def Let_def handler_lookup)
  have upd: "handleUpdateSection parse st
      = Some (Inr (detectedInit (nodes st) s (m # ms)),
              st\<lparr>originalSelectionToRestore := Some [n], selection := [s]\<rparr>)"
    using sel target stored malformed members
    by (simp add: handleUpdateSection_def Let_def handler_lookup)
  show ?thesis
    unfolding upd using refresh
    by (simp add: detectedInit_def Let_def foldl_max_Max foldl_min_Min del: set_simps)
qed

lemmas nestedDoc_eval = nestedDoc_def pageNode_def sectionNode_def frameNode_def

lemma nestedDoc_target: "findParentSection (nodes (nestedDoc d)) 5 = Some (Some 2)"
  by (rule findParentSection_chain [where ps = "[4]"]) (simp_all add: nestedDoc_eval)

theorem C10_nearest_section_witness:
  "findParentSection (nodes (nestedDoc [])) 5 = Some (Some 2)
   \<and> (\<exists>r st'. handleUpdateSection (\<lambda>_. None) (nestedDoc []) = Some (r, st')
                \<and> selection st' = [2])
   \<and> (\<exists>r st'. handleRefreshSection (\<lambda>_. None) (\<lambda>_. []) (nestedDoc []) = Some (r, st')
                \<and> selection st' = [2])"
proof (rule C10_nearest_section [where between = "[4]" and beyond = "[]" and outer = 1])
  show "selection (nestedDoc []) = [5]"
    by (simp add: nestedDoc_eval)
  show "ntype (nodes (nestedDoc []) 5) \<noteq> SECTION"
    by (simp add: nestedDoc_eval)
  show "ancestorChain (nodes (nestedDoc [])) 5 [4] 2"
    by (simp add: nestedDoc_eval)
  show "\<forall>p \<in> set [4]. ntype (nodes (nestedDoc []) p) \<noteq> SECTION
          \<and> ntype (nodes (nestedDoc []) p) \<noteq> PAGE"
    by (simp add: nestedDoc_eval)
  show "ntype (nodes (nestedDoc []) 2) = SECTION"
    by (simp add: nestedDoc_eval)
  show "ancestorChain (nodes (nestedDoc [])) 2 [] 1"
    by (simp add: nestedDoc_eval)
  show "ntype (nodes (nestedDoc []) 1) = SECTION"
    by (simp add: nestedDoc_eval)
qed

theorem C6_refresh_without_settings_witness:
  "\<exists>st'. handleRefreshSection (\<lambda>_. None) (\<lambda>_. []) (nestedDoc [])
             = Some (Inl NoStoredConfigurationError, st')
         \<and> nodes st' = nodes (nestedDoc []) \<and> currentPage st' = currentPage (nestedDoc [])"
proof (rule C6_refresh_without_settings [where n = 5 and s = 2])
  show "selection (nestedDoc []) = [5]"
    by (simp add: nestedDoc_eval)
  show "findParentSection (nodes (nestedDoc [])) 5 = Some (Some 2)"
    by (rule nestedDoc_target)
  show "pluginData (nodes (nestedDoc []) 2) = []"
    by (simp add: nestedDoc_eval)
qed

theorem C7_malformed_settings_witness:
  "(\<exists>msg st'. handleUpdateSection (\<lambda>_. None) (nestedDoc ''{'') = Some (Inr msg, st')
        \<and> nodes st' = nodes (nestedDoc ''{'')
        \<and> detectedSpacing msg = Some 10
        \<and> (detectedLayout msg, detectedAlignment msg) = (Horizontal, Top)
        \<and> currentPadding msg = \<lparr>padTop = 10, padRight = 80, padBottom = 90, padLeft = 10\<rparr>)
   \<and> (\<exists>st'. handleRefreshSection (\<lambda>_. None) (\<lambda>_. []) (nestedDoc ''{'')
             = Some (Inl MalformedStoredConfigurationError, st')
         \<and> nodes st' = nodes (nestedDoc ''{''))"
proof -
  have sel: "selection (nestedDoc ''{'') = [5]"
    by (simp add: nestedDoc_eval)
  have stored: "pluginData (nodes (nestedDoc ''{'') 2) \<noteq> []"
    by (simp add: nestedDoc_eval)
  have malformed: "(\<lambda>_. None :: settings option) (pluginData (nodes (nestedDoc ''{'') 2)) = None"
    by simp
  have members: "findFramesInSection (nodes (nestedDoc ''{'')) 2 = 3 # [4]"
    by (simp add: nestedDoc_eval findFramesInSection_def hasPositionAndSize_def)
  have abs: "absoluteFrames (nodes (nestedDoc ''{'')) 2 (3 # [4])
      = [\<lparr>x = 60, y = 60, width = 100, height = 100\<rparr>,
         \<lparr>x = 170, y = 60, width = 100, height = 100\<rparr>]"
    by (simp add: nestedDoc_eval absoluteFrames_def)
  have spacing: "detectSpacing [\<lparr>x = 60, y = 60, width = 100, height = 100\<rparr>,
         \<lparr>x = 170, y = 60, width = 100, height = 100\<rparr>] = Some 10"
    by (simp add: detectSpacing_def detect_eval Math_round_def floor_eq_iff)
  have lay: "detectLayoutAndAlignment [\<lparr>x = 60, y = 60, width = 100, height = 100\<rparr>,
         \<lparr>x = 170, y = 60, width = 100, height = 100\<rparr>] = (Horizontal, Top)"
    by (simp add: detectLayoutAndAlignment_def)
  have r: "Math_round 10 = 10" "Math_round 80 = 80" "Math_round 90 = 90"
    by (simp_all add: Math_round_def floor_eq_iff)
  show ?thesis
    using C7_malformed_settings [OF sel nestedDoc_target stored malformed members,
        where stringify = "\<lambda>_. []"]
    unfolding abs spacing lay
    by (auto simp: nestedDoc_eval r)
qed

section \<open>Horizontal arrangement\<close>

lemma placeHorizontal_other:
  "k \<notin> set fs \<Longrightarrow> placeHorizontal al b g fs c ns k = ns k"
  by (induction fs arbitrary: c ns) auto

lemma placeHorizontal_width [simp]:
  "width (placeHorizontal al b g fs c ns k) = width (ns k)"
  by (induction fs arbitrary: c ns) auto

lemma placeHorizontal_height [simp]:
  "height (placeHorizontal al b g fs c ns k) = height (ns k)"
  by (induction fs arbitrary: c ns) auto



lemma array_sort_distinct: "distinct (array_sort cmp vs) = distinct vs"
  using array_sort_mset [of cmp vs] by (rule mset_eq_imp_distinct_iff)

text \<open>The exponent found by \<open>binade\<close> is the right one, and rounding keeps the sign.\<close>

lemma binade_le:
  assumes "v \<noteq> 0"
  shows "2 powi (binade v) \<le> \<bar>v\<bar>"
proof -
  obtain p q where pq: "quotient_of \<bar>v\<bar> = (p, q)" by (cases "quotient_of \<bar>v\<bar>")
  have q: "0 < q" using pq by (rule quotient_of_denom_pos)
  have a: "\<bar>v\<bar> = rat_of_int p / rat_of_int q" using pq by (rule quotient_of_div)
  have "0 < \<bar>v\<bar>" using assms by simp
  then have p: "0 < p"
    unfolding a using q by (simp add: zero_less_divide_iff)
  have bp: "2 ^ nat (bitlen p - 1) \<le> p" and bp1: "1 \<le> bitlen p"
    using bitlen_bounds [OF p] bitlen_eq_zero_iff [of p] bitlen_nonneg [of p] p by auto
  have bq: "q < 2 ^ nat (bitlen q)"
    using bitlen_bounds [OF q] by simp
  have low: "2 powi (bitlen p - bitlen q - 1) \<le> \<bar>v\<bar>"
  proof -
    have "(2 :: rat) powi (bitlen p - bitlen q - 1) = 2 powi (bitlen p - 1) / 2 powi (bitlen q)"
      by (simp add: power_int_diff [symmetric] algebra_simps)
    also have "\<dots> = 2 ^ nat (bitlen p - 1) / 2 ^ nat (bitlen q)"
      using bp1 bitlen_nonneg [of q] by (simp add: power_int_def)
    also have "\<dots> \<le> rat_of_int p / rat_of_int q"
    proof (rule frac_le)
      show "0 \<le> rat_of_int p" using p by simp
      have "rat_of_int (2 ^ nat (bitlen p - 1)) \<le> rat_of_int p"
        using bp by (simp only: of_int_le_iff)
      then show "(2 :: rat) ^ nat (bitlen p - 1) \<le> rat_of_int p" by simp
      show "0 < rat_of_int q" using q by simp
      have "rat_of_int q \<le> rat_of_int (2 ^ nat (bitlen q))"
        using bq by (simp only: of_int_le_iff)
      then show "rat_of_int q \<le> 2 ^ nat (bitlen q)" by simp
    qed
    finally show ?thesis by (simp add: a)
  qed
  show ?thesis
    using low by (simp add: binade_def pq Let_def)
qed

lemma binade_gt:
  assumes "v \<noteq> 0"
  shows "\<bar>v\<bar> < 2 powi (binade v + 1)"
proof -
  obtain p q where pq: "quotient_of \<bar>v\<bar> = (p, q)" by (cases "quotient_of \<bar>v\<bar>")
  have q: "0 < q" using pq by (rule quotient_of_denom_pos)
  have a: "\<bar>v\<bar> = rat_of_int p / rat_of_int q" using pq by (rule quotient_of_div)
  have "0 < \<bar>v\<bar>" using assms by simp
  then have p: "0 < p"
    unfolding a using q by (simp add: zero_less_divide_iff)
  have bp: "p < 2 ^ nat (bitlen p)"
    using bitlen_bounds [OF p] by simp
  have bq: "2 ^ nat (bitlen q - 1) \<le> q" and bq1: "1 \<le> bitlen q"
    using bitlen_bounds [OF q] bitlen_eq_zero_iff [of q] bitlen_nonneg [of q] q by auto
  have high: "\<bar>v\<bar> < 2 powi (bitlen p - bitlen q + 1)"
  proof -
    have "rat_of_int p / rat_of_int q < 2 ^ nat (bitlen p) / 2 ^ nat (bitlen q - 1)"
    proof (rule frac_less)
      show "0 \<le> rat_of_int p" using p by simp
      have "rat_of_int p < rat_of_int (2 ^ nat (bitlen p))"
        using bp by (simp only: of_int_less_iff)
      then show "rat_of_int p < 2 ^ nat (bitlen p)" by simp
      show "(0 :: rat) < 2 ^ nat (bitlen q - 1)" by simp
      have "rat_of_int (2 ^ nat (bitlen q - 1)) \<le> rat_of_int q"
        using bq by (simp only: of_int_le_iff)
      then show "(2 :: rat) ^ nat (bitlen q - 1) \<le> rat_of_int q" by simp
    qed
    also have "\<dots> = 2 powi (bitlen p) / 2 powi (bitlen q - 1)"
      using bq1 bitlen_nonneg [of p] by (simp add: power_int_def)
    also have "\<dots> = (2 :: rat) powi (bitlen p - bitlen q + 1)"
      by (simp add: power_int_diff [symmetric] algebra_simps)
    finally show ?thesis by (simp add: a)
  qed
  show ?thesis
  proof (cases "2 powi (bitlen p - bitlen q) \<le> \<bar>v\<bar>")
    case True
    then show ?thesis
      using high by (simp add: binade_def pq Let_def)
  next
    case False
    then show ?thesis
      by (simp add: binade_def pq Let_def)
  qed
qed

lemma fl64_sgn: "sgn (fl64 v) = sgn v"
proof (cases "v = 0")
  case True
  then show ?thesis by (simp add: fl64_def)
next
  case False
  define ulp :: rat where "ulp = 2 powi (binade v - 52)"
  define r where "r = \<bar>v\<bar> / ulp"
  define m where "m = \<lfloor>r\<rfloor>"
  define n where "n = (if r - of_int m < 1 / 2 then m
                    else if r - of_int m > 1 / 2 then m + 1
                    else if even m then m else m + 1)"
  have eq: "fl64 v = sgn v * of_int n * ulp"
    using False by (simp add: fl64_def Let_def ulp_def r_def m_def n_def)
  have ulp: "0 < ulp" by (simp add: ulp_def)
  have "ulp \<le> 2 powi (binade v)"
    unfolding ulp_def by (rule power_int_increasing) simp_all
  also have "\<dots> \<le> \<bar>v\<bar>" using False by (rule binade_le)
  finally have "1 \<le> r"
    using ulp by (simp add: r_def)
  then have "1 \<le> m" by (simp add: m_def)
  then have "1 \<le> n" by (simp add: n_def)
  then have "0 < rat_of_int n * ulp" using ulp by simp
  then have "sgn (rat_of_int n * ulp) = 1" by (rule sgn_pos)
  moreover have "fl64 v = sgn v * (rat_of_int n * ulp)" by (simp add: eq)
  ultimately show ?thesis
    by (simp only: sgn_mult sgn_sgn mult_1_right)
qed

lemma fl64_nonpos: "fl64 v \<le> 0 \<longleftrightarrow> v \<le> 0"
  using fl64_sgn [of v] by (metis sgn_less sgn_pos not_le sgn_greater)

text \<open>
  A rounded value has a significand of 53 bits, and the rounding error is at most the
  \<open>2 ^ 53\<close>-th part of the value.
\<close>

lemma fl64_significand:
  assumes "v \<noteq> 0"
  shows "\<exists>n. 2 ^ 52 \<le> n \<and> n \<le> 2 ^ 53 \<and> fl64 v = sgn v * of_int n * 2 powi (binade v - 52)"
proof -
  define ulp :: rat where "ulp = 2 powi (binade v - 52)"
  define r where "r = \<bar>v\<bar> / ulp"
  define m where "m = \<lfloor>r\<rfloor>"
  define n where "n = (if r - of_int m < 1 / 2 then m
                    else if r - of_int m > 1 / 2 then m + 1
                    else if even m then m else m + 1)"
  have eq: "fl64 v = sgn v * of_int n * ulp"
    using assms by (simp add: fl64_def Let_def ulp_def r_def m_def n_def)
  have ulp: "0 < ulp" by (simp add: ulp_def)
  have u: "ulp = (2 :: rat) powi (binade v) / 2 powi 52"
    unfolding ulp_def by (rule power_int_diff) simp
  have e: "2 powi (binade v) = ulp * 2 ^ 52"
    using u by simp
  have "ulp * 2 ^ 52 \<le> \<bar>v\<bar>"
    using binade_le [OF assms] by (simp add: e)
  then have lo: "2 ^ 52 \<le> r"
    using ulp by (simp add: r_def pos_le_divide_eq mult.commute)
  have "(2 :: rat) powi (binade v + 1) = 2 powi (binade v) * 2"
    by (simp add: power_int_add)
  then have "\<bar>v\<bar> < ulp * 2 ^ 53"
    using binade_gt [OF assms] by (simp add: e)
  then have hi: "r < 2 ^ 53"
    using ulp by (simp add: r_def pos_divide_less_eq mult.commute)
  have "rat_of_int (2 ^ 52) \<le> r" using lo by simp
  then have mlo: "2 ^ 52 \<le> m"
    unfolding m_def by (simp only: le_floor_iff)
  have "r < rat_of_int (2 ^ 53)" using hi by simp
  then have mhi: "m < 2 ^ 53"
    unfolding m_def by (simp only: floor_less_iff)
  have "2 ^ 52 \<le> n \<and> n \<le> 2 ^ 53"
    using mlo mhi by (auto simp: n_def)
  with eq show ?thesis
    unfolding ulp_def by blast
qed

lemma roundoff_bound: "\<bar>roundoff v\<bar> \<le> \<bar>v\<bar> / 2 ^ 53"
proof (cases "v = 0")
  case True
  then show ?thesis by (simp add: roundoff_def fl64_def)
next
  case False
  define ulp :: rat where "ulp = 2 powi (binade v - 52)"
  define r where "r = \<bar>v\<bar> / ulp"
  define m where "m = \<lfloor>r\<rfloor>"
  define n where "n = (if r - of_int m < 1 / 2 then m
                    else if r - of_int m > 1 / 2 then m + 1
                    else if even m then m else m + 1)"
  have eq: "fl64 v = sgn v * of_int n * ulp"
    using False by (simp add: fl64_def Let_def ulp_def r_def m_def n_def)
  have ulp: "0 < ulp" by (simp add: ulp_def)
  have v: "v = sgn v * r * ulp"
    using ulp by (simp add: r_def mult_sgn_abs)
  have fl: "of_int m \<le> r" "r < of_int m + 1"
    unfolding m_def by linarith+
  have near: "\<bar>of_int n - r\<bar> \<le> 1 / 2"
    using fl by (auto simp: n_def abs_le_iff)
  have "roundoff v = sgn v * (of_int n - r) * ulp"
    unfolding roundoff_def using v eq by (simp add: algebra_simps)
  then have "\<bar>roundoff v\<bar> = \<bar>of_int n - r\<bar> * ulp"
    using False ulp by (simp add: abs_mult abs_sgn_eq)
  also have "\<dots> \<le> (1 / 2) * ulp"
    using near ulp by (intro mult_right_mono) simp_all
  also have "\<dots> = 2 powi (binade v) / 2 ^ 53"
  proof -
    have "ulp = (2 :: rat) powi (binade v) / 2 powi 52"
      unfolding ulp_def by (rule power_int_diff) simp
    then show ?thesis by simp
  qed
  also have "\<dots> \<le> \<bar>v\<bar> / 2 ^ 53"
    using binade_le [OF False] by (simp add: divide_right_mono)
  finally show ?thesis .
qed

text \<open>The loop of the arrangement in doubles.\<close>

lemma placeHorizontal64_other:
  "k \<notin> set fs \<Longrightarrow> placeHorizontal64 al b g fs c ns k = ns k"
  by (induction fs arbitrary: c ns) auto

lemma placeHorizontal64_width:
  "width (placeHorizontal64 al b g fs c ns k) = width (ns k)"
  by (induction fs arbitrary: c ns) auto

lemma placeHorizontal64_cursor:
  "distinct fs \<Longrightarrow> Suc i < length fs \<Longrightarrow>
   x (placeHorizontal64 al b g fs c ns (fs ! Suc i))
     = fl64 (x (placeHorizontal64 al b g fs c ns (fs ! i)) + fl64 (width (ns (fs ! i)) + g))"
proof (induction fs arbitrary: c ns i)
  case Nil
  then show ?case by simp
next
  case (Cons f rest)
  define ns' where "ns' = ns(f := (ns f)\<lparr>x := c,
             y := (if al = Top then b else if al = Center then fl64 (b - fl64 (height (ns f) / 2))
                   else fl64 (b - height (ns f)))\<rparr>)"
  define c' where "c' = fl64 (c + fl64 (width (ns f) + g))"
  have step: "placeHorizontal64 al b g (f # rest) c ns = placeHorizontal64 al b g rest c' ns'"
    by (simp add: ns'_def c'_def)
  have w: "width (ns' k) = width (ns k)" for k
    by (simp add: ns'_def)
  show ?case
  proof (cases i)
    case 0
    with Cons.prems obtain f' rest' where rest: "rest = f' # rest'"
      by (cases rest) auto
    with Cons.prems have d: "f \<notin> set rest" "f' \<notin> set rest'" by auto
    have a: "x (placeHorizontal64 al b g rest c' ns' f) = c"
      using d(1) by (simp add: placeHorizontal64_other ns'_def)
    have b: "x (placeHorizontal64 al b g rest c' ns' f') = c'"
      unfolding rest using d(2) by (simp add: placeHorizontal64_other)
    show ?thesis
      unfolding step 0 using a b by (simp add: rest c'_def)
  next
    case (Suc j)
    have "x (placeHorizontal64 al b g rest c' ns' (rest ! Suc j))
        = fl64 (x (placeHorizontal64 al b g rest c' ns' (rest ! j))
                 + fl64 (width (ns' (rest ! j)) + g))"
      using Cons.prems Suc by (intro Cons.IH) auto
    then show ?thesis
      unfolding step Suc by (simp add: w)
  qed
qed

lemma insort_cmp_fl64: "insort_cmp (\<lambda>a b. fl64 (key a - key b)) = insort_key key"
  for key :: "'a \<Rightarrow> rat"
proof (intro ext)
  fix a :: 'a and bs :: "'a list"
  show "insort_cmp (\<lambda>a b. fl64 (key a - key b)) a bs = insort_key key a bs"
    by (induction bs) (auto simp: fl64_nonpos)
qed

lemma array_sort_fl64: "array_sort (\<lambda>a b. fl64 (key a - key b)) vs = sort_key key vs"
  for key :: "'a \<Rightarrow> rat"
  by (simp add: array_sort_def sort_key_def insort_cmp_fl64)

text \<open>
  C4, as stated, fails. Two nodes of width 0.2, the left one at \<^verbatim>\<open>x = 0.1\<close>, arranged
  from \<^verbatim>\<open>startX = 0.1\<close> with the spacing 0.3; the numbers are the doubles nearest to
  these decimals. The cursor moves to \<^verbatim>\<open>0.1 + (0.2 + 0.3)\<close>, the double 0.6. The gap
  \<^verbatim>\<open>next.x - (prev.x + prev.width)\<close> is one unit of the last place below the spacing
  when it is computed in doubles (0.29999999999999993), and it differs from the spacing
  also when the difference of the stored doubles is taken exactly.
\<close>

theorem C4_counterexample:
  "fl64 (1 / 10) = 3602879701896397 / 36028797018963968
   \<and> fl64 (2 / 10) = 3602879701896397 / 18014398509481984
   \<and> fl64 (3 / 10) = 5404319552844595 / 18014398509481984
   \<and> x (arrangeFramesHorizontal64 [1, 2] (5404319552844595 / 18014398509481984)
          (3602879701896397 / 36028797018963968) 0 Top tenthsRow 1)
     = 3602879701896397 / 36028797018963968
   \<and> x (arrangeFramesHorizontal64 [1, 2] (5404319552844595 / 18014398509481984)
          (3602879701896397 / 36028797018963968) 0 Top tenthsRow 2)
     = 5404319552844595 / 9007199254740992
   \<and> fl64 (x (arrangeFramesHorizontal64 [1, 2] (5404319552844595 / 18014398509481984)
          (3602879701896397 / 36028797018963968) 0 Top tenthsRow 2)
            - fl64 (x (arrangeFramesHorizontal64 [1, 2] (5404319552844595 / 18014398509481984)
          (3602879701896397 / 36028797018963968) 0 Top tenthsRow 1)
                    + width (arrangeFramesHorizontal64 [1, 2] (5404319552844595 / 18014398509481984)
          (3602879701896397 / 36028797018963968) 0 Top tenthsRow 1)))
     = 5404319552844594 / 18014398509481984
   \<and> x (arrangeFramesHorizontal64 [1, 2] (5404319552844595 / 18014398509481984)
          (3602879701896397 / 36028797018963968) 0 Top tenthsRow 2)
       - (x (arrangeFramesHorizontal64 [1, 2] (5404319552844595 / 18014398509481984)
          (3602879701896397 / 36028797018963968) 0 Top tenthsRow 1)
          + width (arrangeFramesHorizontal64 [1, 2] (5404319552844595 / 18014398509481984)
          (3602879701896397 / 36028797018963968) 0 Top tenthsRow 1))
     = 10808639105689189 / 36028797018963968"
proof -
  let ?a = "3602879701896397 / 36028797018963968 :: rat"
  let ?b = "3602879701896397 / 18014398509481984 :: rat"
  let ?g = "5404319552844595 / 18014398509481984 :: rat"
  let ?c = "5404319552844595 / 9007199254740992 :: rat"
  let ?e = "1351079888211149 / 4503599627370496 :: rat"
  have d1: "fl64 (1 / 10) = ?a" by code_simp
  have d2: "fl64 (2 / 10) = ?b" by code_simp
  have d3: "fl64 (3 / 10) = ?g" by code_simp
  have s1: "fl64 (?b + ?g) = 1 / 2" by code_simp
  have s2: "fl64 (?a + 1 / 2) = ?c" by code_simp
  have s3: "fl64 (?a + ?b) = ?e" by code_simp
  have s4: "fl64 (?c - ?e) = 5404319552844594 / 18014398509481984" by code_simp
  have order: "array_sort (\<lambda>a b. fl64 (x (tenthsRow a) - x (tenthsRow b))) [1, 2] = [1, 2]"
    by (simp add: array_sort_def fl64_nonpos tenthsRow_def frameNode_def)
  have res: "arrangeFramesHorizontal64 [1, 2] (5404319552844595 / 18014398509481984)
          (3602879701896397 / 36028797018963968) 0 Top tenthsRow
      = placeHorizontal64 Top 0 ?g [1, 2] ?a tenthsRow"
    unfolding arrangeFramesHorizontal64_def Let_def order by simp
  have x1: "x (arrangeFramesHorizontal64 [1, 2] (5404319552844595 / 18014398509481984)
          (3602879701896397 / 36028797018963968) 0 Top tenthsRow 1) = ?a"
    unfolding res by (simp add: tenthsRow_def frameNode_def)
  have w1: "width (arrangeFramesHorizontal64 [1, 2] (5404319552844595 / 18014398509481984)
          (3602879701896397 / 36028797018963968) 0 Top tenthsRow 1) = ?b"
    unfolding res by (simp add: placeHorizontal64_width tenthsRow_def frameNode_def)
  have "x (arrangeFramesHorizontal64 [1, 2] (5404319552844595 / 18014398509481984)
          (3602879701896397 / 36028797018963968) 0 Top tenthsRow 2) = fl64 (?a + fl64 (?b + ?g))"
    unfolding res by (simp add: tenthsRow_def frameNode_def)
  then have x2: "x (arrangeFramesHorizontal64 [1, 2] (5404319552844595 / 18014398509481984)
          (3602879701896397 / 36028797018963968) 0 Top tenthsRow 2) = ?c"
    unfolding s1 s2 .
  have r: "fl64 (x (arrangeFramesHorizontal64 [1, 2] (5404319552844595 / 18014398509481984)
          (3602879701896397 / 36028797018963968) 0 Top tenthsRow 2)
            - fl64 (x (arrangeFramesHorizontal64 [1, 2] (5404319552844595 / 18014398509481984)
          (3602879701896397 / 36028797018963968) 0 Top tenthsRow 1)
                    + width (arrangeFramesHorizontal64 [1, 2] (5404319552844595 / 18014398509481984)
          (3602879701896397 / 36028797018963968) 0 Top tenthsRow 1)))
     = 5404319552844594 / 18014398509481984"
    unfolding x1 w1 x2 s3 s4 ..
  have q: "x (arrangeFramesHorizontal64 [1, 2] (5404319552844595 / 18014398509481984)
          (3602879701896397 / 36028797018963968) 0 Top tenthsRow 2)
       - (x (arrangeFramesHorizontal64 [1, 2] (5404319552844595 / 18014398509481984)
          (3602879701896397 / 36028797018963968) 0 Top tenthsRow 1)
          + width (arrangeFramesHorizontal64 [1, 2] (5404319552844595 / 18014398509481984)
          (3602879701896397 / 36028797018963968) 0 Top tenthsRow 1))
     = 10808639105689189 / 36028797018963968"
    unfolding x1 w1 x2 by simp
  from d1 d2 d3 x1 x2 r q show ?thesis by blast
qed

text \<open>
  C4, amended. \<^verbatim>\<open>arrangeFramesHorizontal\<close> takes the nodes in the order of their \<^verbatim>\<open>x\<close>
  before the arrangement, and puts each node at the rounded sum of its predecessor's
  \<^verbatim>\<open>x\<close> and the rounded sum of the predecessor's width and the spacing. The gap
  \<^verbatim>\<open>next.x - (prev.x + prev.width)\<close> of two consecutive nodes is therefore the spacing up to
  rounding: taken exactly, it is the spacing plus the rounding errors of the two sums of
  the cursor; recomputed in doubles, it is the spacing plus the rounding errors of the four
  sums and differences involved, which is at most the \<open>2 ^ 53\<close>-th part of the sum of their
  magnitudes; and it is the spacing exactly when none of the four rounds. The nodes are
  distinct, as the members of a selection or of a section are.
\<close>

theorem C4_arranged_gaps_rounding:
  fixes frames :: "nat list" and ns :: store and gap startX startY :: rat and al :: alignment
  defines "ordered \<equiv> array_sort (\<lambda>a b. fl64 (x (ns a) - x (ns b))) frames"
  defines "res \<equiv> arrangeFramesHorizontal64 frames gap startX startY al ns"
  assumes "distinct frames" and "Suc i < length frames"
  shows "sorted (map (\<lambda>f. x (ns f)) ordered) \<and> mset ordered = mset frames
    \<and> (let prev = ordered ! i; nxt = ordered ! Suc i;
           step = width (res prev) + gap;
           edge = x (res prev) + width (res prev)
       in x (res nxt) = fl64 (x (res prev) + fl64 step)
          \<and> x (res nxt) - edge = gap + roundoff step + roundoff (x (res prev) + fl64 step)
          \<and> fl64 (x (res nxt) - fl64 edge)
              = gap + roundoff step + roundoff (x (res prev) + fl64 step)
                  - roundoff edge + roundoff (x (res nxt) - fl64 edge)
          \<and> \<bar>fl64 (x (res nxt) - fl64 edge) - gap\<bar>
              \<le> (\<bar>step\<bar> + \<bar>x (res prev) + fl64 step\<bar> + \<bar>edge\<bar>
                  + \<bar>x (res nxt) - fl64 edge\<bar>) / 2 ^ 53
          \<and> (roundoff step = 0 \<and> roundoff (x (res prev) + fl64 step) = 0
                \<and> roundoff edge = 0 \<and> roundoff (x (res nxt) - fl64 edge) = 0
              \<longrightarrow> fl64 (x (res nxt) - fl64 edge) = gap))"
proof -
  have d: "distinct ordered"
    using assms(3) by (simp add: ordered_def array_sort_distinct)
  have m: "mset ordered = mset frames"
    by (simp add: ordered_def array_sort_mset)
  then have "length ordered = length frames"
    by (rule mset_eq_length)
  with assms(4) have i: "Suc i < length ordered" by simp
  have s: "sorted (map (\<lambda>f. x (ns f)) ordered)"
    by (simp add: ordered_def array_sort_fl64 [of "\<lambda>f. x (ns f)"])
  define b where "b = (if al = Top then startY
                   else if al = Center
                        then fl64 (startY + fl64 (Math_max (map (\<lambda>f. height (ns f)) ordered) / 2))
                   else fl64 (startY + Math_max (map (\<lambda>f. height (ns f)) ordered)))"
  have res: "res = placeHorizontal64 al b gap ordered startX ns"
    by (simp add: res_def arrangeFramesHorizontal64_def Let_def ordered_def b_def)
  have w: "width (res k) = width (ns k)" for k
    by (simp add: res placeHorizontal64_width)
  define step where "step = width (res (ordered ! i)) + gap"
  define edge where "edge = x (res (ordered ! i)) + width (res (ordered ! i))"
  define xp where "xp = x (res (ordered ! i))"
  define xn where "xn = x (res (ordered ! Suc i))"
  have "x (res (ordered ! Suc i))
      = fl64 (x (res (ordered ! i)) + fl64 (width (res (ordered ! i)) + gap))"
    unfolding w unfolding res using d i by (rule placeHorizontal64_cursor)
  then have c: "xn = fl64 (xp + fl64 step)"
    by (simp add: xn_def xp_def step_def)
  have e: "xn - edge = gap + roundoff step + roundoff (xp + fl64 step)"
    unfolding c by (simp add: roundoff_def edge_def step_def xp_def)
  have f: "fl64 (xn - fl64 edge)
      = gap + roundoff step + roundoff (xp + fl64 step) - roundoff edge
          + roundoff (xn - fl64 edge)"
    using e by (simp add: roundoff_def)
  have t: "\<bar>fl64 (xn - fl64 edge) - gap\<bar>
      \<le> (\<bar>step\<bar> + \<bar>xp + fl64 step\<bar> + \<bar>edge\<bar> + \<bar>xn - fl64 edge\<bar>) / 2 ^ 53"
  proof -
    have "\<bar>fl64 (xn - fl64 edge) - gap\<bar>
        \<le> \<bar>roundoff step\<bar> + \<bar>roundoff (xp + fl64 step)\<bar> + \<bar>roundoff edge\<bar>
            + \<bar>roundoff (xn - fl64 edge)\<bar>"
      unfolding f by linarith
    also have "\<dots> \<le> \<bar>step\<bar> / 2 ^ 53 + \<bar>xp + fl64 step\<bar> / 2 ^ 53 + \<bar>edge\<bar> / 2 ^ 53
            + \<bar>xn - fl64 edge\<bar> / 2 ^ 53"
      by (intro add_mono roundoff_bound)
    finally show ?thesis
      by (simp add: add_divide_distrib)
  qed
  have z: "fl64 (xn - fl64 edge) = gap"
    if "roundoff step = 0 \<and> roundoff (xp + fl64 step) = 0 \<and> roundoff edge = 0
        \<and> roundoff (xn - fl64 edge) = 0"
    using f that by simp
  from s m c e f t z show ?thesis
    unfolding Let_def xn_def xp_def edge_def step_def by blast
qed

theorem C4_arranged_gaps_witness:
  "array_sort (\<lambda>a b. fl64 (x (shuffledRow a) - x (shuffledRow b))) [1, 2, 3] = [2, 3, 1]
   \<and> x (arrangeFramesHorizontal64 [1, 2, 3] 10 0 0 Center shuffledRow 2) = 0
   \<and> width (arrangeFramesHorizontal64 [1, 2, 3] 10 0 0 Center shuffledRow 2) = 80
   \<and> x (arrangeFramesHorizontal64 [1, 2, 3] 10 0 0 Center shuffledRow 3) = 90
   \<and> fl64 (x (arrangeFramesHorizontal64 [1, 2, 3] 10 0 0 Center shuffledRow 3)
            - fl64 (x (arrangeFramesHorizontal64 [1, 2, 3] 10 0 0 Center shuffledRow 2)
                    + width (arrangeFramesHorizontal64 [1, 2, 3] 10 0 0 Center shuffledRow 2)))
     = 10"
proof -
  have d: "distinct [1, 2, 3 :: nat]" by simp
  have i0: "Suc 0 < length [1, 2, 3 :: nat]"
    by simp
  have order: "array_sort (\<lambda>a b. fl64 (x (shuffledRow a) - x (shuffledRow b))) [1, 2, 3]
      = [2, 3, 1]"
    by code_simp
  have n0: "[2, 3, 1 :: nat] ! 0 = 2" and n1: "[2, 3, 1 :: nat] ! Suc 0 = 3"
    by simp_all
  have x2: "x (arrangeFramesHorizontal64 [1, 2, 3] 10 0 0 Center shuffledRow 2) = 0"
    by code_simp
  have w2: "width (arrangeFramesHorizontal64 [1, 2, 3] 10 0 0 Center shuffledRow 2) = 80"
    by code_simp
  have x3: "x (arrangeFramesHorizontal64 [1, 2, 3] 10 0 0 Center shuffledRow 3) = 90"
    by code_simp
  have p1: "roundoff (width (arrangeFramesHorizontal64 [1, 2, 3] 10 0 0 Center shuffledRow 2)
                       + 10) = 0"
    by code_simp
  have p2: "roundoff (x (arrangeFramesHorizontal64 [1, 2, 3] 10 0 0 Center shuffledRow 2)
      + fl64 (width (arrangeFramesHorizontal64 [1, 2, 3] 10 0 0 Center shuffledRow 2) + 10)) = 0"
    by code_simp
  have p3: "roundoff (x (arrangeFramesHorizontal64 [1, 2, 3] 10 0 0 Center shuffledRow 2)
      + width (arrangeFramesHorizontal64 [1, 2, 3] 10 0 0 Center shuffledRow 2)) = 0"
    by code_simp
  have p4: "roundoff (x (arrangeFramesHorizontal64 [1, 2, 3] 10 0 0 Center shuffledRow 3)
      - fl64 (x (arrangeFramesHorizontal64 [1, 2, 3] 10 0 0 Center shuffledRow 2)
               + width (arrangeFramesHorizontal64 [1, 2, 3] 10 0 0 Center shuffledRow 2))) = 0"
    by code_simp
  note t = C4_arranged_gaps_rounding [OF d i0, of shuffledRow 10 0 0 Center,
      unfolded order Let_def n0 n1]
  from t p1 p2 p3 p4
  have "fl64 (x (arrangeFramesHorizontal64 [1, 2, 3] 10 0 0 Center shuffledRow 3)
            - fl64 (x (arrangeFramesHorizontal64 [1, 2, 3] 10 0 0 Center shuffledRow 2)
                    + width (arrangeFramesHorizontal64 [1, 2, 3] 10 0 0 Center shuffledRow 2)))
     = 10"
    by blast
  with order x2 w2 x3 show ?thesis by blast
qed

section \<open>The store under the tree operations\<close>

subsection \<open>appendChild\<close>

lemma appendChild_geometry [simp]:
  "x (appendChild p c ns k) = x (ns k)"
  "y (appendChild p c ns k) = y (ns k)"
  "width (appendChild p c ns k) = width (ns k)"
  "height (appendChild p c ns k) = height (ns k)"
  "hasGeometry (appendChild p c ns k) = hasGeometry (ns k)"
  "ntype (appendChild p c ns k) = ntype (ns k)"
  "pluginData (appendChild p c ns k) = pluginData (ns k)"
  by (simp_all add: appendChild_def Let_def split: option.splits)

lemma appendChild_parent:
  "parent (appendChild p c ns k) = (if k = c then Some p else parent (ns k))"
  by (simp add: appendChild_def Let_def split: option.splits)

lemma appendChild_children:
  "children (appendChild p c ns k) =
     (if parent (ns c) = Some k then removeAll c (children (ns k)) else children (ns k))
     @ (if k = p then [c] else [])"
  by (simp add: appendChild_def Let_def split: option.splits)

subsection \<open>setPosition\<close>

lemma setPosition_geometry [simp]:
  "x (setPosition f vx vy ns k) = (if k = f then vx else x (ns k))"
  "y (setPosition f vx vy ns k) = (if k = f then vy else y (ns k))"
  "width (setPosition f vx vy ns k) = width (ns k)"
  "height (setPosition f vx vy ns k) = height (ns k)"
  "hasGeometry (setPosition f vx vy ns k) = hasGeometry (ns k)"
  "ntype (setPosition f vx vy ns k) = ntype (ns k)"
  "pluginData (setPosition f vx vy ns k) = pluginData (ns k)"
  "parent (setPosition f vx vy ns k) = parent (ns k)"
  "children (setPosition f vx vy ns k) = children (ns k)"
  by (simp_all add: setPosition_def)

subsection \<open>addFramesToSection\<close>

lemma addFramesToSection_size [simp]:
  "width (addFramesToSection s rels ns k) = width (ns k)"
  "height (addFramesToSection s rels ns k) = height (ns k)"
  "hasGeometry (addFramesToSection s rels ns k) = hasGeometry (ns k)"
  "ntype (addFramesToSection s rels ns k) = ntype (ns k)"
  "pluginData (addFramesToSection s rels ns k) = pluginData (ns k)"
  by (induction s rels ns rule: addFramesToSection.induct; simp)+

lemma addFramesToSection_other:
  "k \<notin> fst ` set rels \<Longrightarrow> x (addFramesToSection s rels ns k) = x (ns k)
     \<and> y (addFramesToSection s rels ns k) = y (ns k)
     \<and> parent (addFramesToSection s rels ns k) = parent (ns k)"
  by (induction s rels ns rule: addFramesToSection.induct) (auto simp: appendChild_parent)

lemma addFramesToSection_member:
  "distinct (map fst rels) \<Longrightarrow> (f, rx, ry) \<in> set rels \<Longrightarrow>
   x (addFramesToSection s rels ns f) = rx \<and> y (addFramesToSection s rels ns f) = ry
   \<and> parent (addFramesToSection s rels ns f) = Some s"
proof (induction s rels ns rule: addFramesToSection.induct)
  case (1 s ns)
  then show ?case by simp
next
  case (2 s g gx gy rest ns)
  show ?case
  proof (cases "(f, rx, ry) \<in> set rest")
    case True
    with 2 show ?thesis by simp
  next
    case False
    with 2 have eq: "g = f" "gx = rx" "gy = ry" by auto
    with 2(2) have "f \<notin> fst ` set rest" by auto
    then show ?thesis
      using addFramesToSection_other [of f rest s] by (simp add: eq appendChild_parent)
  qed
qed

lemma addFramesToSection_children:
  "distinct (map fst rels) \<Longrightarrow> s \<notin> fst ` set rels \<Longrightarrow>
   \<forall>f \<in> fst ` set rels. parent (ns f) \<noteq> Some s \<Longrightarrow>
   children (addFramesToSection s rels ns s) = children (ns s) @ map fst rels"
proof (induction s rels ns rule: addFramesToSection.induct)
  case (1 s ns)
  then show ?case by simp
next
  case (2 s g gx gy rest ns)
  let ?ns = "appendChild s g (setPosition g gx gy ns)"
  have "children (addFramesToSection s rest ?ns s) = children (?ns s) @ map fst rest"
  proof (rule 2(1))
    show "distinct (map fst rest)" using 2(2) by simp
    show "s \<notin> fst ` set rest" using 2(3) by auto
    show "\<forall>f \<in> fst ` set rest. parent (?ns f) \<noteq> Some s"
      using 2(2,4) by (auto simp: appendChild_parent)
  qed
  moreover have "children (?ns s) = children (ns s) @ [g]"
    using 2(3,4) by (auto simp: appendChild_children)
  ultimately show ?case by simp
qed

subsection \<open>The two loops at the start of updateSection\<close>

lemma moveToParent_geometry [simp]:
  "x (moveToParent par fs ns k) = x (ns k)"
  "y (moveToParent par fs ns k) = y (ns k)"
  "width (moveToParent par fs ns k) = width (ns k)"
  "height (moveToParent par fs ns k) = height (ns k)"
  "hasGeometry (moveToParent par fs ns k) = hasGeometry (ns k)"
  "ntype (moveToParent par fs ns k) = ntype (ns k)"
  "pluginData (moveToParent par fs ns k) = pluginData (ns k)"
  by (induction fs arbitrary: ns; simp)+

lemma moveToParent_parent:
  "parent (moveToParent par fs ns k) = (if k \<in> set fs then Some par else parent (ns k))"
  by (induction fs arbitrary: ns) (auto simp: appendChild_parent)

lemma moveToParent_children:
  "distinct fs \<Longrightarrow> \<forall>f \<in> set fs. parent (ns f) = Some s \<Longrightarrow> s \<noteq> par \<Longrightarrow>
   children (moveToParent par fs ns s) = filter (\<lambda>c. c \<notin> set fs) (children (ns s))"
proof (induction fs arbitrary: ns)
  case Nil
  then show ?case by simp
next
  case (Cons f fs)
  let ?ns = "appendChild par f ns"
  have "children (moveToParent par fs ?ns s) = filter (\<lambda>c. c \<notin> set fs) (children (?ns s))"
  proof (rule Cons.IH)
    show "distinct fs" using Cons.prems by simp
    show "\<forall>g \<in> set fs. parent (?ns g) = Some s"
      using Cons.prems by (auto simp: appendChild_parent)
    show "s \<noteq> par" by fact
  qed
  moreover have "children (?ns s) = removeAll f (children (ns s))"
    using Cons.prems by (simp add: appendChild_children)
  ultimately show ?case
    by (auto simp: removeAll_filter_not_eq intro: filter_cong)
qed

lemma toAbsolute_size [simp]:
  "width (toAbsolute ox oy ps ns k) = width (ns k)"
  "height (toAbsolute ox oy ps ns k) = height (ns k)"
  "hasGeometry (toAbsolute ox oy ps ns k) = hasGeometry (ns k)"
  "ntype (toAbsolute ox oy ps ns k) = ntype (ns k)"
  "pluginData (toAbsolute ox oy ps ns k) = pluginData (ns k)"
  "parent (toAbsolute ox oy ps ns k) = parent (ns k)"
  "children (toAbsolute ox oy ps ns k) = children (ns k)"
  by (induction ox oy ps ns rule: toAbsolute.induct; simp)+



section \<open>Arranging twice\<close>

lemma placeHorizontal_fields [simp]:
  "hasGeometry (placeHorizontal al b g fs c ns k) = hasGeometry (ns k)"
  "ntype (placeHorizontal al b g fs c ns k) = ntype (ns k)"
  "pluginData (placeHorizontal al b g fs c ns k) = pluginData (ns k)"
  "parent (placeHorizontal al b g fs c ns k) = parent (ns k)"
  "children (placeHorizontal al b g fs c ns k) = children (ns k)"
  by (induction fs arbitrary: c ns; simp)+





lemma Math_min_le: "v \<in> set vs \<Longrightarrow> Math_min vs \<le> v"
  by (cases vs) (auto simp: Math_min_Min simp del: Math_min.simps)





lemma insort_cmp_set: "set (insort_cmp cmp a bs) = insert a (set bs)"
  by (induction bs) auto

lemma array_sort_set: "set (array_sort cmp vs) = set vs"
  by (induction vs) (auto simp: array_sort_def insort_cmp_set)



lemma arrangeFramesHorizontal_size [simp]:
  "width (arrangeFramesHorizontal frames g sx sy al ns k) = width (ns k)"
  "height (arrangeFramesHorizontal frames g sx sy al ns k) = height (ns k)"
  "hasGeometry (arrangeFramesHorizontal frames g sx sy al ns k) = hasGeometry (ns k)"
  "ntype (arrangeFramesHorizontal frames g sx sy al ns k) = ntype (ns k)"
  "pluginData (arrangeFramesHorizontal frames g sx sy al ns k) = pluginData (ns k)"
  "parent (arrangeFramesHorizontal frames g sx sy al ns k) = parent (ns k)"
  "children (arrangeFramesHorizontal frames g sx sy al ns k) = children (ns k)"
  by (simp_all add: arrangeFramesHorizontal_def Let_def)

lemma arrangeFramesHorizontal_other:
  "k \<notin> set frames \<Longrightarrow> arrangeFramesHorizontal frames g sx sy al ns k = ns k"
  by (simp add: arrangeFramesHorizontal_def Let_def placeHorizontal_other array_sort_set)



text \<open>The same for the vertical arrangement, with the axes exchanged.\<close>

lemma placeVertical_other:
  "k \<notin> set fs \<Longrightarrow> placeVertical al b g fs c ns k = ns k"
  by (induction fs arbitrary: c ns) auto

lemma placeVertical_height [simp]:
  "height (placeVertical al b g fs c ns k) = height (ns k)"
  by (induction fs arbitrary: c ns) auto

lemma placeVertical_width [simp]:
  "width (placeVertical al b g fs c ns k) = width (ns k)"
  by (induction fs arbitrary: c ns) auto

lemma placeVertical_fields [simp]:
  "hasGeometry (placeVertical al b g fs c ns k) = hasGeometry (ns k)"
  "ntype (placeVertical al b g fs c ns k) = ntype (ns k)"
  "pluginData (placeVertical al b g fs c ns k) = pluginData (ns k)"
  "parent (placeVertical al b g fs c ns k) = parent (ns k)"
  "children (placeVertical al b g fs c ns k) = children (ns k)"
  by (induction fs arbitrary: c ns; simp)+




lemma arrangeFramesVertical_size [simp]:
  "height (arrangeFramesVertical frames g sx sy al ns k) = height (ns k)"
  "width (arrangeFramesVertical frames g sx sy al ns k) = width (ns k)"
  "hasGeometry (arrangeFramesVertical frames g sx sy al ns k) = hasGeometry (ns k)"
  "ntype (arrangeFramesVertical frames g sx sy al ns k) = ntype (ns k)"
  "pluginData (arrangeFramesVertical frames g sx sy al ns k) = pluginData (ns k)"
  "parent (arrangeFramesVertical frames g sx sy al ns k) = parent (ns k)"
  "children (arrangeFramesVertical frames g sx sy al ns k) = children (ns k)"
  by (simp_all add: arrangeFramesVertical_def Let_def)

lemma arrangeFramesVertical_other:
  "k \<notin> set frames \<Longrightarrow> arrangeFramesVertical frames g sx sy al ns k = ns k"
  by (simp add: arrangeFramesVertical_def Let_def placeVertical_other array_sort_set)



section \<open>The section fitted around the arrangement\<close>

lemma createSection_fit:
  assumes "filter (hasPositionAndSize (nodes st)) (selection st) = frames" and "frames \<noteq> []"
  shows "createSection stringify sec msg st =
           (Inr (), st\<lparr>nodes := fitSection stringify sec msg frames (arranged msg frames (nodes st))
                                    (newSectionNode sec (currentPage st)
                                       (arranged msg frames (nodes st))),
                        selection := [sec]\<rparr>)"
  using assms by (simp add: createSection_def fitSection_def arranged_def Let_def)

lemma updateSection_fit:
  assumes "selection st = [s]" and "ntype (nodes st s) = SECTION"
    and "findFramesInSection (nodes st) s = frames" and "frames \<noteq> []"
    and "parent (nodes st s) = Some par"
  shows "updateSection stringify msg st =
           (Inr (), st\<lparr>nodes :=
                let ns1 = arranged msg frames
                            (toAbsolute (x (nodes st s)) (y (nodes st s))
                               (map (\<lambda>f. (f, x (nodes st f), y (nodes st f))) frames)
                               (moveToParent par frames (nodes st)))
                in fitSection stringify s msg frames ns1 ns1,
              originalSelectionToRestore := None\<rparr>)"
  using assms by (simp add: updateSection_def fitSection_def arranged_def Let_def)

lemma frameRelativePositions_fst [simp]:
  "map fst (frameRelativePositions msg mx my frames ns) = frames"
  by (simp add: frameRelativePositions_def comp_def)

lemma frameRelativePositions_keys [simp]:
  "fst ` set (frameRelativePositions msg mx my frames ns) = set frames"
  by (force simp: frameRelativePositions_def)

lemma frameRelativePositions_member:
  "f \<in> set frames \<Longrightarrow>
   (f, (x (ns f) - mx) + padLeft (padding msg), (y (ns f) - my) + padTop (padding msg))
     \<in> set (frameRelativePositions msg mx my frames ns)"
  by (force simp: frameRelativePositions_def)

lemma fitSection_member:
  assumes "distinct frames" and "section \<notin> set frames" and "f \<in> set frames"
  shows "x (fitSection stringify section msg frames ns1 base f)
           = (x (ns1 f) - Math_min (map (\<lambda>f. x (ns1 f)) frames)) + padLeft (padding msg)"
    and "y (fitSection stringify section msg frames ns1 base f)
           = (y (ns1 f) - Math_min (map (\<lambda>f. y (ns1 f)) frames)) + padTop (padding msg)"
    and "width (fitSection stringify section msg frames ns1 base f) = width (base f)"
    and "height (fitSection stringify section msg frames ns1 base f) = height (base f)"
proof -
  let ?mx = "Math_min (map (\<lambda>f. x (ns1 f)) frames)"
  let ?my = "Math_min (map (\<lambda>f. y (ns1 f)) frames)"
  let ?rels = "frameRelativePositions msg ?mx ?my frames ns1"
  have d: "distinct (map fst ?rels)" using assms(1) by simp
  have ne: "f \<noteq> section" using assms(2,3) by auto
  note m = addFramesToSection_member [OF d frameRelativePositions_member [OF assms(3)]]
  show "x (fitSection stringify section msg frames ns1 base f)
           = (x (ns1 f) - ?mx) + padLeft (padding msg)"
    using ne m by (simp add: fitSection_def Let_def)
  show "y (fitSection stringify section msg frames ns1 base f)
           = (y (ns1 f) - ?my) + padTop (padding msg)"
    using ne m by (simp add: fitSection_def Let_def)
  show "width (fitSection stringify section msg frames ns1 base f) = width (base f)"
    using ne by (simp add: fitSection_def Let_def)
  show "height (fitSection stringify section msg frames ns1 base f) = height (base f)"
    using ne by (simp add: fitSection_def Let_def)
qed

lemma fitSection_section:
  assumes "section \<notin> set frames"
  shows "x (fitSection stringify section msg frames ns1 base section)
           = Math_min (map (\<lambda>f. x (ns1 f)) frames) - padLeft (padding msg)"
    and "y (fitSection stringify section msg frames ns1 base section)
           = Math_min (map (\<lambda>f. y (ns1 f)) frames) - padTop (padding msg)"
    and "width (fitSection stringify section msg frames ns1 base section)
           = maxRelativeX ns1 (frameRelativePositions msg (Math_min (map (\<lambda>f. x (ns1 f)) frames))
                (Math_min (map (\<lambda>f. y (ns1 f)) frames)) frames ns1) + padRight (padding msg)"
    and "height (fitSection stringify section msg frames ns1 base section)
           = maxRelativeY ns1 (frameRelativePositions msg (Math_min (map (\<lambda>f. x (ns1 f)) frames))
                (Math_min (map (\<lambda>f. y (ns1 f)) frames)) frames ns1) + padBottom (padding msg)"
    and "parent (fitSection stringify section msg frames ns1 base section) = parent (base section)"
  using assms addFramesToSection_other [of "section"
      "frameRelativePositions msg (Math_min (map (\<lambda>f. x (ns1 f)) frames))
                (Math_min (map (\<lambda>f. y (ns1 f)) frames)) frames ns1" "section"]
  by (simp_all add: fitSection_def Let_def)

lemma fitSection_fields [simp]:
  "hasGeometry (fitSection stringify section msg frames ns1 base k) = hasGeometry (base k)"
  "ntype (fitSection stringify section msg frames ns1 base k) = ntype (base k)"
  by (simp_all add: fitSection_def Let_def)

lemma fitSection_children:
  assumes "distinct frames" and "section \<notin> set frames"
    and "\<forall>f \<in> set frames. parent (base f) \<noteq> Some section"
  shows "children (fitSection stringify section msg frames ns1 base section)
           = children (base section) @ frames"
proof -
  let ?rels = "frameRelativePositions msg (Math_min (map (\<lambda>f. x (ns1 f)) frames))
                (Math_min (map (\<lambda>f. y (ns1 f)) frames)) frames ns1"
  let ?ns3 = "base(section := (base section)\<lparr>
      x := Math_min (map (\<lambda>f. x (ns1 f)) frames) - padLeft (padding msg),
      y := Math_min (map (\<lambda>f. y (ns1 f)) frames) - padTop (padding msg),
      width := maxRelativeX ns1 ?rels + padRight (padding msg),
      height := maxRelativeY ns1 ?rels + padBottom (padding msg)\<rparr>)"
  have "children (addFramesToSection section ?rels ?ns3 section)
      = children (?ns3 section) @ map fst ?rels"
  proof (rule addFramesToSection_children)
    show "distinct (map fst ?rels)" using assms(1) by simp
    show "section \<notin> fst ` set ?rels" using assms(2) by simp
    show "\<forall>f \<in> fst ` set ?rels. parent (?ns3 f) \<noteq> Some section"
      using assms(2,3) by auto
  qed
  then show ?thesis
    by (simp add: fitSection_def Let_def)
qed

lemma maxRelativeX_Max:
  assumes "frames \<noteq> []"
  shows "maxRelativeX ns (frameRelativePositions msg mx my frames ns)
           = max 0 (Max ((\<lambda>f. (x (ns f) - mx) + padLeft (padding msg) + width (ns f)) ` set frames))"
proof -
  have "maxRelativeX ns (frameRelativePositions msg mx my frames ns)
      = foldl max 0 (map (\<lambda>f. (x (ns f) - mx) + padLeft (padding msg) + width (ns f)) frames)"
    by (simp add: maxRelativeX_def frameRelativePositions_def foldl_map)
  also have "\<dots> = Max (set (0 # map (\<lambda>f. (x (ns f) - mx) + padLeft (padding msg) + width (ns f)) frames))"
    by (rule foldl_max_Max)
  also have "\<dots> = max 0 (Max ((\<lambda>f. (x (ns f) - mx) + padLeft (padding msg) + width (ns f)) ` set frames))"
    using assms by simp
  finally show ?thesis .
qed

lemma maxRelativeY_Max:
  assumes "frames \<noteq> []"
  shows "maxRelativeY ns (frameRelativePositions msg mx my frames ns)
           = max 0 (Max ((\<lambda>f. (y (ns f) - my) + padTop (padding msg) + height (ns f)) ` set frames))"
proof -
  have "maxRelativeY ns (frameRelativePositions msg mx my frames ns)
      = foldl max 0 (map (\<lambda>f. (y (ns f) - my) + padTop (padding msg) + height (ns f)) frames)"
    by (simp add: maxRelativeY_def frameRelativePositions_def foldl_map)
  also have "\<dots> = Max (set (0 # map (\<lambda>f. (y (ns f) - my) + padTop (padding msg) + height (ns f)) frames))"
    by (rule foldl_max_Max)
  also have "\<dots> = max 0 (Max ((\<lambda>f. (y (ns f) - my) + padTop (padding msg) + height (ns f)) ` set frames))"
    using assms by simp
  finally show ?thesis .
qed

lemma arrangeFrames_size [simp]:
  "width (arrangeFrames msg frames sx sy ns k) = width (ns k)"
  "height (arrangeFrames msg frames sx sy ns k) = height (ns k)"
  "hasGeometry (arrangeFrames msg frames sx sy ns k) = hasGeometry (ns k)"
  "ntype (arrangeFrames msg frames sx sy ns k) = ntype (ns k)"
  "pluginData (arrangeFrames msg frames sx sy ns k) = pluginData (ns k)"
  "parent (arrangeFrames msg frames sx sy ns k) = parent (ns k)"
  "children (arrangeFrames msg frames sx sy ns k) = children (ns k)"
  by (simp_all add: arrangeFrames_def arrangeFramesMaintain_def)

lemma arrangeFrames_other:
  "k \<notin> set frames \<Longrightarrow> arrangeFrames msg frames sx sy ns k = ns k"
  by (simp add: arrangeFrames_def arrangeFramesMaintain_def arrangeFramesHorizontal_other
      arrangeFramesVertical_other)

lemma arranged_size [simp]:
  "width (arranged msg frames ns k) = width (ns k)"
  "height (arranged msg frames ns k) = height (ns k)"
  "hasGeometry (arranged msg frames ns k) = hasGeometry (ns k)"
  "ntype (arranged msg frames ns k) = ntype (ns k)"
  "pluginData (arranged msg frames ns k) = pluginData (ns k)"
  "parent (arranged msg frames ns k) = parent (ns k)"
  "children (arranged msg frames ns k) = children (ns k)"
  by (simp_all add: arranged_def)

lemma arranged_other: "k \<notin> set frames \<Longrightarrow> arranged msg frames ns k = ns k"
  by (simp add: arranged_def arrangeFrames_other)

lemma fitSection_width_Max:
  assumes d: "distinct frames" and ne: "frames \<noteq> []" and s: "section \<notin> set frames"
    and pad: "0 \<le> padLeft (padding msg)"
    and w: "\<forall>f \<in> set frames. width (base f) = width (ns1 f) \<and> 0 \<le> width (ns1 f)"
  shows "width (fitSection stringify section msg frames ns1 base section)
    = Max ((\<lambda>f. x (fitSection stringify section msg frames ns1 base f)
                 + width (fitSection stringify section msg frames ns1 base f)) ` set frames)
      + padRight (padding msg)"
proof -
  let ?mx = "Math_min (map (\<lambda>f. x (ns1 f)) frames)"
  let ?g = "\<lambda>f. (x (ns1 f) - ?mx) + padLeft (padding msg) + width (ns1 f)"
  have img: "(\<lambda>f. x (fitSection stringify section msg frames ns1 base f)
                 + width (fitSection stringify section msg frames ns1 base f)) ` set frames
      = ?g ` set frames"
    using w by (intro image_cong refl) (simp add: fitSection_member [OF d s])
  have nonneg: "0 \<le> ?g f" if "f \<in> set frames" for f
  proof -
    have "?mx \<le> x (ns1 f)" using that by (intro Math_min_le) simp
    then show ?thesis using pad w that by simp
  qed
  obtain f0 where f0: "f0 \<in> set frames" using ne by (cases frames) auto
  have "?g f0 \<le> Max (?g ` set frames)" using f0 by simp
  with nonneg [OF f0] have "0 \<le> Max (?g ` set frames)" by simp
  then have "max 0 (Max (?g ` set frames)) = Max (?g ` set frames)" by simp
  then show ?thesis
    unfolding img fitSection_section(3) [OF s] maxRelativeX_Max [OF ne] by simp
qed

lemma fitSection_height_Max:
  assumes d: "distinct frames" and ne: "frames \<noteq> []" and s: "section \<notin> set frames"
    and pad: "0 \<le> padTop (padding msg)"
    and w: "\<forall>f \<in> set frames. height (base f) = height (ns1 f) \<and> 0 \<le> height (ns1 f)"
  shows "height (fitSection stringify section msg frames ns1 base section)
    = Max ((\<lambda>f. y (fitSection stringify section msg frames ns1 base f)
                 + height (fitSection stringify section msg frames ns1 base f)) ` set frames)
      + padBottom (padding msg)"
proof -
  let ?my = "Math_min (map (\<lambda>f. y (ns1 f)) frames)"
  let ?g = "\<lambda>f. (y (ns1 f) - ?my) + padTop (padding msg) + height (ns1 f)"
  have img: "(\<lambda>f. y (fitSection stringify section msg frames ns1 base f)
                 + height (fitSection stringify section msg frames ns1 base f)) ` set frames
      = ?g ` set frames"
    using w by (intro image_cong refl) (simp add: fitSection_member [OF d s])
  have nonneg: "0 \<le> ?g f" if "f \<in> set frames" for f
  proof -
    have "?my \<le> y (ns1 f)" using that by (intro Math_min_le) simp
    then show ?thesis using pad w that by simp
  qed
  obtain f0 where f0: "f0 \<in> set frames" using ne by (cases frames) auto
  have "?g f0 \<le> Max (?g ` set frames)" using f0 by simp
  with nonneg [OF f0] have "0 \<le> Max (?g ` set frames)" by simp
  then have "max 0 (Max (?g ` set frames)) = Max (?g ` set frames)" by simp
  then show ?thesis
    unfolding img fitSection_section(4) [OF s] maxRelativeY_Max [OF ne] by simp
qed

lemma newSectionNode_other [simp]:
  "k \<noteq> sec \<Longrightarrow> x (newSectionNode sec page ns k) = x (ns k)"
  "k \<noteq> sec \<Longrightarrow> y (newSectionNode sec page ns k) = y (ns k)"
  "k \<noteq> sec \<Longrightarrow> width (newSectionNode sec page ns k) = width (ns k)"
  "k \<noteq> sec \<Longrightarrow> height (newSectionNode sec page ns k) = height (ns k)"
  "k \<noteq> sec \<Longrightarrow> hasGeometry (newSectionNode sec page ns k) = hasGeometry (ns k)"
  "k \<noteq> sec \<Longrightarrow> parent (newSectionNode sec page ns k) = parent (ns k)"
  by (simp_all add: newSectionNode_def)

lemma newSectionNode_section [simp]:
  "children (newSectionNode sec page ns sec) = []"
  "parent (newSectionNode sec page ns sec) = Some page"
  "ntype (newSectionNode sec page ns sec) = SECTION"
  by (simp_all add: newSectionNode_def)

text \<open>The members of the section after \<^verbatim>\<open>createSection\<close> and after \<^verbatim>\<open>updateSection\<close>.\<close>

lemma createSection_members:
  assumes fr: "filter (hasPositionAndSize (nodes st)) (selection st) = frames"
    and d: "distinct frames" and s: "sec \<notin> set frames"
    and p: "\<forall>f \<in> set frames. parent (nodes st f) \<noteq> Some sec"
  shows "findFramesInSection
           (fitSection stringify sec msg frames (arranged msg frames (nodes st))
              (newSectionNode sec page (arranged msg frames (nodes st)))) sec = frames"
proof -
  let ?base = "newSectionNode sec page (arranged msg frames (nodes st))"
  have ne: "\<forall>f \<in> set frames. f \<noteq> sec" using s by auto
  have "children (fitSection stringify sec msg frames (arranged msg frames (nodes st)) ?base sec)
      = children (?base sec) @ frames"
    using d s
  proof (rule fitSection_children)
    show "\<forall>f \<in> set frames. parent (?base f) \<noteq> Some sec"
      using p ne by simp
  qed
  moreover have "\<forall>f \<in> set frames. hasGeometry (?base f)"
  proof
    fix f assume f: "f \<in> set frames"
    then have "f \<in> set (filter (hasPositionAndSize (nodes st)) (selection st))"
      using fr by simp
    then have "hasGeometry (nodes st f)" by (simp add: hasPositionAndSize_def)
    then show "hasGeometry (?base f)" using ne f by simp
  qed
  ultimately show ?thesis
    by (simp add: findFramesInSection_def hasPositionAndSize_def filter_id_conv)
qed

lemma updateSection_members:
  fixes msg :: settings
  assumes fr: "findFramesInSection (nodes st) s = frames"
    and d: "distinct frames" and s: "s \<notin> set frames"
    and p: "\<forall>f \<in> set frames. parent (nodes st f) = Some s" and par: "par \<noteq> s"
  defines "ns1 \<equiv> arranged msg frames
                            (toAbsolute (x (nodes st s)) (y (nodes st s))
                               (map (\<lambda>f. (f, x (nodes st f), y (nodes st f))) frames)
                               (moveToParent par frames (nodes st)))"
  shows "findFramesInSection (fitSection stringify s msg frames ns1 ns1) s = frames"
proof -
  have "children (fitSection stringify s msg frames ns1 ns1 s) = children (ns1 s) @ frames"
    using d s
  proof (rule fitSection_children)
    show "\<forall>f \<in> set frames. parent (ns1 f) \<noteq> Some s"
      using par by (simp add: ns1_def moveToParent_parent)
  qed
  moreover have "children (ns1 s) = filter (\<lambda>c. c \<notin> set frames) (children (nodes st s))"
    using d p par by (simp add: ns1_def moveToParent_children)
  moreover have geo: "hasGeometry (ns1 k) = hasGeometry (nodes st k)" for k
    by (simp add: ns1_def)
  moreover have "filter (\<lambda>c. hasGeometry (nodes st c))
      (filter (\<lambda>c. c \<notin> set frames) (children (nodes st s))) = []"
    using fr by (auto simp: findFramesInSection_def hasPositionAndSize_def filter_empty_conv)
  moreover have "\<forall>f \<in> set frames. hasGeometry (nodes st f)"
    using fr by (auto simp: findFramesInSection_def hasPositionAndSize_def)
  ultimately show ?thesis
    by (simp add: findFramesInSection_def hasPositionAndSize_def filter_id_conv)
qed

text \<open>
  C5. After \<^verbatim>\<open>createSection\<close> and after \<^verbatim>\<open>updateSection\<close> the members of the section
  are the nodes that were arranged; the section's width is the largest \<^verbatim>\<open>x + width\<close> of
  a member, in the section's coordinates, plus the right padding, and its height the
  largest \<^verbatim>\<open>y + height\<close> plus the bottom padding. The data are those of the
  specification's data model: left and top padding not negative, sizes not negative. The
  document is well formed: the nodes are distinct, the new section is a node the document
  did not have, and the members of an updated section have it as their parent.
\<close>

theorem C5_padding_round_trip:
  fixes msg :: settings
  assumes padL: "0 \<le> padLeft (padding msg)" and padT: "0 \<le> padTop (padding msg)"
    and fd: "distinct frames" and fne: "frames \<noteq> []"
    and size: "\<forall>f \<in> set frames. 0 \<le> width (nodes st f) \<and> 0 \<le> height (nodes st f)"
  shows "(filter (hasPositionAndSize (nodes st)) (selection st) = frames
          \<and> sec \<notin> set frames \<and> (\<forall>f \<in> set frames. parent (nodes st f) \<noteq> Some sec)
          \<longrightarrow> (let st' = snd (createSection stringify sec msg st)
               in fst (createSection stringify sec msg st) = Inr ()
                  \<and> findFramesInSection (nodes st') sec = frames
                  \<and> width (nodes st' sec)
                      = Max ((\<lambda>f. x (nodes st' f) + width (nodes st' f))
                               ` set (findFramesInSection (nodes st') sec))
                        + padRight (padding msg)
                  \<and> height (nodes st' sec)
                      = Max ((\<lambda>f. y (nodes st' f) + height (nodes st' f))
                               ` set (findFramesInSection (nodes st') sec))
                        + padBottom (padding msg)))
       \<and> (selection st = [s] \<and> ntype (nodes st s) = SECTION \<and> parent (nodes st s) = Some par
          \<and> par \<noteq> s \<and> findFramesInSection (nodes st) s = frames \<and> s \<notin> set frames
          \<and> (\<forall>f \<in> set frames. parent (nodes st f) = Some s)
          \<longrightarrow> (let st' = snd (updateSection stringify msg st)
               in fst (updateSection stringify msg st) = Inr ()
                  \<and> findFramesInSection (nodes st') s = frames
                  \<and> width (nodes st' s)
                      = Max ((\<lambda>f. x (nodes st' f) + width (nodes st' f))
                               ` set (findFramesInSection (nodes st') s))
                        + padRight (padding msg)
                  \<and> height (nodes st' s)
                      = Max ((\<lambda>f. y (nodes st' f) + height (nodes st' f))
                               ` set (findFramesInSection (nodes st') s))
                        + padBottom (padding msg)))"
proof (intro conjI impI)
  assume a: "filter (hasPositionAndSize (nodes st)) (selection st) = frames
          \<and> sec \<notin> set frames \<and> (\<forall>f \<in> set frames. parent (nodes st f) \<noteq> Some sec)"
  define ns1 where "ns1 = arranged msg frames (nodes st)"
  define base where "base = newSectionNode sec (currentPage st) ns1"
  define N where "N = fitSection stringify sec msg frames ns1 base"
  have run: "createSection stringify sec msg st = (Inr (), st\<lparr>nodes := N, selection := [sec]\<rparr>)"
    using a fne by (simp add: createSection_fit N_def base_def ns1_def)
  have mem: "findFramesInSection N sec = frames"
    unfolding N_def base_def ns1_def using a fd by (intro createSection_members) simp_all
  have ne: "\<forall>f \<in> set frames. f \<noteq> sec" using a by auto
  have w: "\<forall>f \<in> set frames. width (base f) = width (ns1 f) \<and> 0 \<le> width (ns1 f)"
    using size ne by (simp add: base_def ns1_def)
  have h: "\<forall>f \<in> set frames. height (base f) = height (ns1 f) \<and> 0 \<le> height (ns1 f)"
    using size ne by (simp add: base_def ns1_def)
  have sec: "sec \<notin> set frames" using a by simp
  have wd: "width (N sec) = Max ((\<lambda>f. x (N f) + width (N f)) ` set frames) + padRight (padding msg)"
    unfolding N_def using fd fne sec padL w by (rule fitSection_width_Max)
  have hd: "height (N sec) = Max ((\<lambda>f. y (N f) + height (N f)) ` set frames) + padBottom (padding msg)"
    unfolding N_def using fd fne sec padT h by (rule fitSection_height_Max)
  show "let st' = snd (createSection stringify sec msg st)
        in fst (createSection stringify sec msg st) = Inr ()
           \<and> findFramesInSection (nodes st') sec = frames
           \<and> width (nodes st' sec)
               = Max ((\<lambda>f. x (nodes st' f) + width (nodes st' f))
                        ` set (findFramesInSection (nodes st') sec))
                 + padRight (padding msg)
           \<and> height (nodes st' sec)
               = Max ((\<lambda>f. y (nodes st' f) + height (nodes st' f))
                        ` set (findFramesInSection (nodes st') sec))
                 + padBottom (padding msg)"
    unfolding run Let_def using mem wd hd by simp
next
  assume a: "selection st = [s] \<and> ntype (nodes st s) = SECTION \<and> parent (nodes st s) = Some par
          \<and> par \<noteq> s \<and> findFramesInSection (nodes st) s = frames \<and> s \<notin> set frames
          \<and> (\<forall>f \<in> set frames. parent (nodes st f) = Some s)"
  define ns1 where "ns1 = arranged msg frames
                            (toAbsolute (x (nodes st s)) (y (nodes st s))
                               (map (\<lambda>f. (f, x (nodes st f), y (nodes st f))) frames)
                               (moveToParent par frames (nodes st)))"
  define N where "N = fitSection stringify s msg frames ns1 ns1"
  have run: "updateSection stringify msg st
      = (Inr (), st\<lparr>nodes := N, originalSelectionToRestore := None\<rparr>)"
    using a fne by (simp add: updateSection_fit [where par = par and frames = frames]
        N_def ns1_def Let_def)
  have mem: "findFramesInSection N s = frames"
    unfolding N_def ns1_def using a fd by (intro updateSection_members) simp_all
  have w: "\<forall>f \<in> set frames. width (ns1 f) = width (ns1 f) \<and> 0 \<le> width (ns1 f)"
    using size by (simp add: ns1_def)
  have h: "\<forall>f \<in> set frames. height (ns1 f) = height (ns1 f) \<and> 0 \<le> height (ns1 f)"
    using size by (simp add: ns1_def)
  have sec: "s \<notin> set frames" using a by simp
  have wd: "width (N s) = Max ((\<lambda>f. x (N f) + width (N f)) ` set frames) + padRight (padding msg)"
    unfolding N_def using fd fne sec padL w by (rule fitSection_width_Max)
  have hd: "height (N s) = Max ((\<lambda>f. y (N f) + height (N f)) ` set frames) + padBottom (padding msg)"
    unfolding N_def using fd fne sec padT h by (rule fitSection_height_Max)
  show "let st' = snd (updateSection stringify msg st)
        in fst (updateSection stringify msg st) = Inr ()
           \<and> findFramesInSection (nodes st') s = frames
           \<and> width (nodes st' s)
               = Max ((\<lambda>f. x (nodes st' f) + width (nodes st' f))
                        ` set (findFramesInSection (nodes st') s))
                 + padRight (padding msg)
           \<and> height (nodes st' s)
               = Max ((\<lambda>f. y (nodes st' f) + height (nodes st' f))
                        ` set (findFramesInSection (nodes st') s))
                 + padBottom (padding msg)"
    unfolding run Let_def using mem wd hd by simp
qed

section \<open>Updating again\<close>

lemma sameGeometry_refl [simp]: "sameGeometry fs a a"
  by (simp add: sameGeometry_def)











theorem C5_padding_round_trip_witness:
  "width (nodes (snd (createSection noText 9 (rowSettings 10) rowOnPage)) 9)
     = Max ((\<lambda>f. x (nodes (snd (createSection noText 9 (rowSettings 10) rowOnPage)) f)
                 + width (nodes (snd (createSection noText 9 (rowSettings 10) rowOnPage)) f))
              ` set (findFramesInSection
                       (nodes (snd (createSection noText 9 (rowSettings 10) rowOnPage))) 9))
       + padRight (padding (rowSettings 10))
   \<and> geometry (nodes (snd (createSection noText 9 (rowSettings 10) rowOnPage)) 9)
     = (- 80, - 80, 480, 260)
   \<and> height (nodes (snd (updateSection noText (rowSettings 10) sectionOnPage)) 1)
     = Max ((\<lambda>f. y (nodes (snd (updateSection noText (rowSettings 10) sectionOnPage)) f)
                 + height (nodes (snd (updateSection noText (rowSettings 10) sectionOnPage)) f))
              ` set (findFramesInSection
                       (nodes (snd (updateSection noText (rowSettings 10) sectionOnPage))) 1))
       + padBottom (padding (rowSettings 10))
   \<and> geometry (nodes (snd (updateSection noText (rowSettings 10) sectionOnPage)) 1)
     = (- 20, - 20, 370, 260)"
proof -
  have padL: "0 \<le> padLeft (padding (rowSettings 10))"
    and padT: "0 \<le> padTop (padding (rowSettings 10))"
    by (simp_all add: rowSettings_def uniformPadding_def)
  have d: "distinct [1, 2, 3 :: nat]" and ne: "[1, 2, 3 :: nat] \<noteq> []" by simp_all
  have size: "\<forall>f \<in> set [1, 2, 3]. 0 \<le> width (nodes rowOnPage f) \<and> 0 \<le> height (nodes rowOnPage f)"
    by (simp add: rowOnPage_def frameNode_def)
  have c: "filter (hasPositionAndSize (nodes rowOnPage)) (selection rowOnPage) = [1, 2, 3]
      \<and> 9 \<notin> set [1, 2, 3 :: nat]
      \<and> (\<forall>f \<in> set [1, 2, 3]. parent (nodes rowOnPage f) \<noteq> Some 9)"
    by (simp add: rowOnPage_def hasPositionAndSize_def frameNode_def)
  have d2: "distinct [2, 3 :: nat]" and ne2: "[2, 3 :: nat] \<noteq> []" by simp_all
  have size2: "\<forall>f \<in> set [2, 3]. 0 \<le> width (nodes sectionOnPage f)
      \<and> 0 \<le> height (nodes sectionOnPage f)"
    by (simp add: sectionOnPage_def frameNode_def)
  have u: "selection sectionOnPage = [1] \<and> ntype (nodes sectionOnPage 1) = SECTION
      \<and> parent (nodes sectionOnPage 1) = Some 0 \<and> (0 :: nat) \<noteq> 1
      \<and> findFramesInSection (nodes sectionOnPage) 1 = [2, 3] \<and> 1 \<notin> set [2, 3 :: nat]
      \<and> (\<forall>f \<in> set [2, 3]. parent (nodes sectionOnPage f) = Some 1)"
    by (simp add: sectionOnPage_def findFramesInSection_def hasPositionAndSize_def
        frameNode_def sectionNode_def)
  have v1: "geometry (nodes (snd (createSection noText 9 (rowSettings 10) rowOnPage)) 9)
     = (- 80, - 80, 480, 260)"
    by code_simp
  have v2: "geometry (nodes (snd (updateSection noText (rowSettings 10) sectionOnPage)) 1)
     = (- 20, - 20, 370, 260)"
    by code_simp
  from C5_padding_round_trip [OF padL padT d ne size, of 9 noText 1 0] c
  have p1: "width (nodes (snd (createSection noText 9 (rowSettings 10) rowOnPage)) 9)
     = Max ((\<lambda>f. x (nodes (snd (createSection noText 9 (rowSettings 10) rowOnPage)) f)
                 + width (nodes (snd (createSection noText 9 (rowSettings 10) rowOnPage)) f))
              ` set (findFramesInSection
                       (nodes (snd (createSection noText 9 (rowSettings 10) rowOnPage))) 9))
       + padRight (padding (rowSettings 10))"
    by (simp add: Let_def)
  from C5_padding_round_trip [OF padL padT d2 ne2 size2, of 9 noText 1 0] u
  have p2: "height (nodes (snd (updateSection noText (rowSettings 10) sectionOnPage)) 1)
     = Max ((\<lambda>f. y (nodes (snd (updateSection noText (rowSettings 10) sectionOnPage)) f)
                 + height (nodes (snd (updateSection noText (rowSettings 10) sectionOnPage)) f))
              ` set (findFramesInSection
                       (nodes (snd (updateSection noText (rowSettings 10) sectionOnPage))) 1))
       + padBottom (padding (rowSettings 10))"
    by (simp add: Let_def)
  from p1 p2 v1 v2 show ?thesis by simp
qed

end
